theory Spec2Isabelle
  imports Complex_Main
begin

section \<open>Python strings\<close>

text \<open>
  A Python \<^verbatim>\<open>str\<close> is modelled as a \<^typ>\<open>string\<close> in which every \<^typ>\<open>char\<close> is one code
  point below 256. The character classes below are the ones Python 3 uses on that range:
  \<^verbatim>\<open>str.isspace\<close> for \<^verbatim>\<open>strip\<close> and \<^verbatim>\<open>split\<close>, the simple lower-case mapping for
  \<^verbatim>\<open>lower\<close>, and the classes \<^verbatim>\<open>[A-Z]\<close>, \<^verbatim>\<open>[a-z]\<close> and \<^verbatim>\<open>\w\<close> of the \<^verbatim>\<open>re\<close> module.
\<close>

definition code_point :: "char \<Rightarrow> nat" where
  "code_point c = of_char c"

definition isspace :: "char \<Rightarrow> bool" where
  "isspace c = (let n = code_point c in
     (9 \<le> n \<and> n \<le> 13) \<or> (28 \<le> n \<and> n \<le> 32) \<or> n = 133 \<or> n = 160)"

definition isupper :: "char \<Rightarrow> bool" where
  "isupper c = (let n = code_point c in
     (65 \<le> n \<and> n \<le> 90) \<or> (192 \<le> n \<and> n \<le> 222 \<and> n \<noteq> 215))"

text \<open>
  On the code points below 256 every upper-case letter has bit 5 clear and its lower-case
  form is the code point plus 32, that is the same character with bit 5 set.
\<close>

definition lower_char :: "char \<Rightarrow> char" where
  "lower_char c = (if isupper c
     then (case c of Char b0 b1 b2 b3 b4 b5 b6 b7 \<Rightarrow> Char b0 b1 b2 b3 b4 True b6 b7)
     else c)"

definition lower :: "string \<Rightarrow> string" where
  "lower s = map lower_char s"

definition strip :: "string \<Rightarrow> string" where
  "strip s = rev (dropWhile isspace (rev (dropWhile isspace s)))"

text \<open>\<^verbatim>\<open>s.split()\<close>: the maximal runs of non-whitespace characters, in order.\<close>

function split :: "string \<Rightarrow> string list" where
  "split s = (case dropWhile isspace s of
      [] \<Rightarrow> []
    | c # cs \<Rightarrow> (c # takeWhile (\<lambda>x. \<not> isspace x) cs) # split (dropWhile (\<lambda>x. \<not> isspace x) cs))"
  by pat_completeness auto
termination
proof (relation "measure length")
  show "wf (measure (length :: string \<Rightarrow> nat))" by simp
next
  fix s :: string and c cs
  assume "dropWhile isspace s = c # cs"
  then have "length (c # cs) \<le> length s"
    by (metis length_dropWhile_le)
  moreover have "length (dropWhile (\<lambda>x. \<not> isspace x) cs) \<le> length cs"
    by (rule length_dropWhile_le)
  ultimately show "(dropWhile (\<lambda>x. \<not> isspace x) cs, s) \<in> measure length"
    by simp
qed

declare split.simps [simp del]

text \<open>\<^verbatim>\<open>s.replace(a, b)\<close> for single characters \<^verbatim>\<open>a\<close> and \<^verbatim>\<open>b\<close>.\<close>

definition replace :: "char \<Rightarrow> char \<Rightarrow> string \<Rightarrow> string" where
  "replace a b s = map (\<lambda>c. if c = a then b else c) s"

fun startswith :: "string \<Rightarrow> string \<Rightarrow> bool" where
  "startswith s [] = True"
| "startswith [] (p # ps) = False"
| "startswith (c # cs) (p # ps) = (c = p \<and> startswith cs ps)"

text \<open>\<^verbatim>\<open>sub in s\<close> on strings.\<close>

fun contains :: "string \<Rightarrow> string \<Rightarrow> bool" where
  "contains [] sub = (sub = [])"
| "contains (c # cs) sub = (startswith (c # cs) sub \<or> contains cs sub)"

section \<open>The tables of \<^verbatim>\<open>location_parser.py\<close>\<close>

text \<open>
  Every entry of \<^verbatim>\<open>LOCATION_PATTERNS\<close> is a literal prefix followed by the same capture
  group \<^verbatim>\<open>([A-Z][a-z]+ ?[A-Z]?[a-z]*)\<close>; the list keeps the prefixes, in the source's order.
\<close>

definition LOCATION_PATTERNS :: "string list" where
  "LOCATION_PATTERNS =
   [''in '', ''from '', ''at '', ''near '', ''to '', ''visiting '', ''live in '',
    ''based in '', ''located in '']"

text \<open>
  \<^verbatim>\<open>MAJOR_LOCATIONS\<close> and \<^verbatim>\<open>IGNORE_LOCATIONS\<close> are Python sets. The lists hold the elements
  of the set literals as written (\<^verbatim>\<open>singapore\<close> occurs twice in the source); membership is
  membership in \<^term>\<open>set MAJOR_LOCATIONS\<close>. The order in which Python iterates over such
  a set depends on the string hashes of the run and is a parameter of the model
  (\<open>major_iter\<close> below).
\<close>

definition MAJOR_LOCATIONS :: "string list" where
  "MAJOR_LOCATIONS =
   [''new york'', ''los angeles'', ''chicago'', ''houston'', ''phoenix'', ''philadelphia'',
    ''san antonio'', ''san diego'', ''dallas'', ''san jose'', ''austin'',
    ''san francisco'', ''boston'', ''seattle'', ''miami'', ''atlanta'', ''tokyo'',
    ''delhi'', ''shanghai'', ''sao paulo'', ''mexico city'', ''cairo'', ''mumbai'',
    ''beijing'', ''dhaka'', ''osaka'', ''london'', ''paris'', ''istanbul'', ''moscow'',
    ''karachi'', ''lagos'', ''manila'', ''berlin'', ''rome'', ''madrid'', ''toronto'',
    ''sydney'', ''melbourne'', ''singapore'', ''dubai'', ''bangkok'', ''hong kong'',
    ''kuala lumpur'', ''jakarta'', ''seoul'', ''tehran'', ''brussels'', ''johannesburg'',
    ''kiev'', ''usa'', ''united states'', ''america'', ''canada'', ''mexico'', ''brazil'',
    ''argentina'', ''uk'', ''united kingdom'', ''england'', ''france'', ''germany'',
    ''spain'', ''italy'', ''russia'', ''china'', ''japan'', ''india'', ''australia'',
    ''south korea'', ''north korea'', ''egypt'', ''south africa'', ''nigeria'', ''kenya'',
    ''pakistan'', ''bangladesh'', ''thailand'', ''vietnam'', ''malaysia'', ''indonesia'',
    ''philippines'', ''new zealand'', ''ireland'', ''portugal'', ''sweden'', ''norway'',
    ''denmark'', ''finland'', ''belgium'', ''netherlands'', ''austria'', ''switzerland'',
    ''poland'', ''ukraine'', ''turkey'', ''iran'', ''iraq'', ''saudi arabia'', ''uae'',
    ''united arab emirates'', ''qatar'', ''israel'', ''lebanon'', ''singapore'',
    ''california'', ''texas'', ''florida'', ''new york state'', ''pennsylvania'',
    ''illinois'', ''ohio'', ''georgia'', ''north carolina'', ''michigan'', ''new jersey'',
    ''virginia'', ''washington'', ''arizona'', ''massachusetts'', ''tennessee'',
    ''indiana'', ''missouri'', ''maryland'', ''wisconsin'', ''colorado'', ''minnesota'',
    ''south carolina'', ''alabama'', ''louisiana'', ''kentucky'', ''oregon'', ''oklahoma'',
    ''connecticut'', ''utah'', ''iowa'', ''nevada'', ''arkansas'', ''mississippi'',
    ''kansas'', ''new mexico'', ''nebraska'', ''west virginia'', ''idaho'', ''hawaii'',
    ''new hampshire'', ''maine'', ''montana'', ''rhode island'', ''delaware'',
    ''south dakota'', ''north dakota'', ''alaska'', ''vermont'', ''wyoming'']"

definition IGNORE_LOCATIONS :: "string list" where
  "IGNORE_LOCATIONS =
   [''twitter'', ''internet'', ''home'', ''work'', ''everywhere'', ''nowhere'', ''online'',
    ''inbox'', ''cloud'', ''worldwide'', ''global'', ''earth'', ''planet'', ''universe'',
    ''website'', ''app'', ''web'', ''platform'', ''social media'', ''facebook'',
    ''instagram'', ''snapchat'', ''tiktok'', ''linkedin'', ''youtube'', ''twitch'',
    ''reality'', ''cyberspace'', ''metaverse'', ''matrix'', ''zoom'', ''microsoft'',
    ''apple'', ''google'', ''amazon'']"

section \<open>The regular expressions of the text-mining step\<close>

definition is_AZ :: "char \<Rightarrow> bool" where
  "is_AZ c = (65 \<le> code_point c \<and> code_point c \<le> 90)"

definition is_az :: "char \<Rightarrow> bool" where
  "is_az c = (97 \<le> code_point c \<and> code_point c \<le> 122)"

text \<open>\<^verbatim>\<open>\w\<close> of a Python 3 \<^verbatim>\<open>str\<close> pattern: the alphanumeric code points and the underscore.\<close>

definition is_word :: "char \<Rightarrow> bool" where
  "is_word c = (let n = code_point c in
     (48 \<le> n \<and> n \<le> 57) \<or> (65 \<le> n \<and> n \<le> 90) \<or> n = 95 \<or> (97 \<le> n \<and> n \<le> 122) \<or>
     n = 170 \<or> n = 178 \<or> n = 179 \<or> n = 181 \<or> n = 185 \<or> n = 186 \<or> (188 \<le> n \<and> n \<le> 190) \<or>
     (192 \<le> n \<and> n \<noteq> 215 \<and> n \<noteq> 247))"

text \<open>
  The capture group \<^verbatim>\<open>[A-Z][a-z]+ ?[A-Z]?[a-z]*\<close> at the start of a string: the matched text
  and the rest of the string. Everything after \<^verbatim>\<open>[a-z]+\<close> may match the empty string, so
  the greedy choice never has to be undone.
\<close>

definition match_group :: "string \<Rightarrow> (string \<times> string) option" where
  "match_group s =
     (case s of
        [] \<Rightarrow> None
      | c # cs \<Rightarrow>
          if \<not> is_AZ c \<or> takeWhile is_az cs = [] then None
          else
            let low1 = takeWhile is_az cs;
                r1 = dropWhile is_az cs;
                sp = (case r1 of [] \<Rightarrow> [] | x # xs \<Rightarrow> if x = CHR '' '' then [x] else []);
                r2 = drop (length sp) r1;
                up = (case r2 of [] \<Rightarrow> [] | x # xs \<Rightarrow> if is_AZ x then [x] else []);
                r3 = drop (length up) r2
            in Some (c # low1 @ sp @ up @ takeWhile is_az r3, dropWhile is_az r3))"

text \<open>One entry of \<^verbatim>\<open>LOCATION_PATTERNS\<close> at the start of a string.\<close>

definition match_pattern :: "string \<Rightarrow> string \<Rightarrow> (string \<times> string) option" where
  "match_pattern pre s =
     (if startswith s pre then match_group (drop (length pre) s) else None)"

lemma match_group_shorter:
  "match_group s = Some (g, rest) \<Longrightarrow> length rest < length s"
proof (cases s)
  case Nil
  then show "match_group s = Some (g, rest) \<Longrightarrow> length rest < length s"
    by (simp add: match_group_def)
next
  case (Cons c cs)
  assume m: "match_group s = Some (g, rest)"
  define r1 where "r1 = dropWhile is_az cs"
  define sp where "sp = (case r1 of [] \<Rightarrow> [] | x # xs \<Rightarrow> if x = CHR '' '' then [x] else [])"
  define r2 where "r2 = drop (length sp) r1"
  define up where "up = (case r2 of [] \<Rightarrow> [] | x # xs \<Rightarrow> if is_AZ x then [x] else [])"
  define r3 where "r3 = drop (length up) r2"
  from m Cons have "rest = dropWhile is_az r3"
    by (auto simp: match_group_def Let_def r1_def sp_def r2_def up_def r3_def split: if_splits)
  moreover have "length (dropWhile is_az r3) \<le> length r3"
    by (rule length_dropWhile_le)
  moreover have "length r3 \<le> length r2" by (simp add: r3_def)
  moreover have "length r2 \<le> length r1" by (simp add: r2_def)
  moreover have "length r1 \<le> length cs" unfolding r1_def by (rule length_dropWhile_le)
  ultimately show "length rest < length s" using Cons by simp
qed

lemma match_pattern_shorter:
  "match_pattern pre s = Some (g, rest) \<Longrightarrow> length rest < length s"
  by (auto simp: match_pattern_def split: if_splits dest!: match_group_shorter)

text \<open>
  \<^verbatim>\<open>re.findall(pattern, text)\<close> for one entry of \<^verbatim>\<open>LOCATION_PATTERNS\<close>: the captured groups
  of the non-overlapping matches, scanning from the left.
\<close>

function findall_pattern :: "string \<Rightarrow> string \<Rightarrow> string list" where
  "findall_pattern pre [] = []"
| "findall_pattern pre (c # cs) =
     (case match_pattern pre (c # cs) of
        Some (g, rest) \<Rightarrow> g # findall_pattern pre rest
      | None \<Rightarrow> findall_pattern pre cs)"
  by pat_completeness auto
termination
  by (relation "measure (\<lambda>(pre, s). length s)") (auto dest: match_pattern_shorter)

text \<open>
  \<^verbatim>\<open>\b[A-Z][a-z]+\b\<close> at the start of a string whose preceding character is \<open>prev\<close>
  (\<open>None\<close> at the start of the text).
\<close>

definition match_word :: "char option \<Rightarrow> string \<Rightarrow> (string \<times> string) option" where
  "match_word prev s =
     (case s of
        [] \<Rightarrow> None
      | c # cs \<Rightarrow>
          if is_AZ c \<and> \<not> (case prev of None \<Rightarrow> False | Some p \<Rightarrow> is_word p)
             \<and> takeWhile is_az cs \<noteq> []
             \<and> (case dropWhile is_az cs of [] \<Rightarrow> True | x # xs \<Rightarrow> \<not> is_word x)
          then Some (c # takeWhile is_az cs, dropWhile is_az cs)
          else None)"

lemma match_word_shorter:
  "match_word prev s = Some (g, rest) \<Longrightarrow> length rest < length s"
proof (cases s)
  case Nil
  then show "match_word prev s = Some (g, rest) \<Longrightarrow> length rest < length s"
    by (simp add: match_word_def)
next
  case (Cons c cs)
  assume "match_word prev s = Some (g, rest)"
  with Cons have "rest = dropWhile is_az cs"
    by (auto simp: match_word_def split: if_splits)
  moreover have "length (dropWhile is_az cs) \<le> length cs"
    by (rule length_dropWhile_le)
  ultimately show "length rest < length s" using Cons by simp
qed

text \<open>\<^verbatim>\<open>re.findall(r'\b[A-Z][a-z]+\b', text)\<close>.\<close>

function findall_words :: "char option \<Rightarrow> string \<Rightarrow> string list" where
  "findall_words prev [] = []"
| "findall_words prev (c # cs) =
     (case match_word prev (c # cs) of
        Some (g, rest) \<Rightarrow> g # findall_words (Some (last g)) rest
      | None \<Rightarrow> findall_words (Some c) cs)"
  by pat_completeness auto
termination
  by (relation "measure (\<lambda>(prev, s). length s)") (auto dest: match_word_shorter)

text \<open>
  \<^verbatim>\<open>re.compile(re.escape(location), re.IGNORECASE).search(text)\<close>: the first place where
  the text equals the literal up to case, and the text found there.
\<close>

fun startswith_icase :: "string \<Rightarrow> string \<Rightarrow> bool" where
  "startswith_icase s [] = True"
| "startswith_icase [] (p # ps) = False"
| "startswith_icase (c # cs) (p # ps) = (lower_char c = lower_char p \<and> startswith_icase cs ps)"

fun search_icase :: "string \<Rightarrow> string \<Rightarrow> string option" where
  "search_icase pat [] = (if pat = [] then Some [] else None)"
| "search_icase pat (c # cs) =
     (if startswith_icase (c # cs) pat then Some (take (length pat) (c # cs))
      else search_icase pat cs)"

section \<open>Data model\<close>

text \<open>
  JSON values, for the opaque \<^verbatim>\<open>raw\<close> payload of a geocoding result.
\<close>

datatype json =
    JNull
  | JBool bool
  | JNumber rat
  | JString string
  | JArray "json list"
  | JObject "(string \<times> json) list"

text \<open>
  The object the geocoding client returns for a match (\<^verbatim>\<open>geopy.location.Location\<close>).
  Latitudes and longitudes are Python floats that this code stores and hands back but
  never computes with; they are modelled as rationals.
\<close>

record Location =
  loc_address :: string
  loc_latitude :: rat
  loc_longitude :: rat
  loc_raw :: json

text \<open>The dictionary that \<^verbatim>\<open>geocode_location\<close> and \<^verbatim>\<open>add_known_location\<close> build and cache.\<close>

record geocode_result =
  input :: string
  address :: string
  latitude :: rat
  longitude :: rat
  raw :: json

text \<open>
  The fields of a tweet that the parser reads. \<open>geo_coordinates\<close> is
  \<^verbatim>\<open>tweet['geo']['coordinates']\<close> (\<open>None\<close> when \<^verbatim>\<open>geo\<close> is missing, empty or has no
  coordinates), \<open>place_full_name\<close> is \<^verbatim>\<open>tweet['place']['full_name']\<close>, \<open>tweet_text\<close> is
  \<^verbatim>\<open>tweet.get('text', '')\<close>. A user whose \<^verbatim>\<open>location\<close> or \<^verbatim>\<open>description\<close> is missing or
  is not a string has \<open>None\<close> there. The type \<open>'c\<close> is the type of the coordinate
  values.
\<close>

record user_profile =
  location :: "string option"
  description :: "string option"

record 'c tweet =
  tweet_text :: string
  geo_coordinates :: "'c list option"
  place_full_name :: "string option"
  user :: "user_profile option"

text \<open>The value stored under \<^verbatim>\<open>tweet['location']\<close>.\<close>

record enriched_location =
  raw_location :: "string option"
  geocoded :: "geocode_result option"

text \<open>
  Exceptions of the geocoding client. The three named classes are the ones
  \<^verbatim>\<open>geocode_location\<close> catches around its first query; \<open>OtherException\<close> is any
  exception outside these classes.
\<close>

datatype exc = GeocoderTimedOut | GeocoderUnavailable | GeocoderServiceError | OtherException

datatype reply = Found Location | NoMatch | Raises exc

datatype error = IndexError | Uncaught exc

text \<open>The exception classes named in the \<^verbatim>\<open>except\<close> clause of the first query.\<close>

fun transient :: "exc \<Rightarrow> bool" where
  "transient GeocoderTimedOut = True"
| "transient GeocoderUnavailable = True"
| "transient GeocoderServiceError = True"
| "transient OtherException = False"

section \<open>Environment and state\<close>

text \<open>
  What the source leaves to its environment is a parameter of the model:
  \<^item> \<open>str_of\<close>: the text an f-string produces for a coordinate value;
  \<^item> \<open>set_to_list\<close>: \<^verbatim>\<open>list(set(xs))\<close>, whose order depends on the string hashes;
  \<^item> \<open>major_iter\<close>: the order in which \<^verbatim>\<open>for loc in MAJOR_LOCATIONS\<close> visits the set;
  \<^item> \<open>geocode_reply n q\<close>: what the external service answers to the query \<open>q\<close> when
    \<open>n\<close> queries have been sent before it;
  \<^item> \<open>geocode_time n\<close>, \<open>save_time n\<close>: how long the \<open>n\<close>-th query and the \<open>n\<close>-th cache
    write take;
  \<^item> \<open>oversleep n\<close>: how much longer than asked the \<open>n\<close>-th \<^verbatim>\<open>time.sleep\<close> lasts.
  Times are seconds, as exact rationals.
\<close>

record 'c env =
  str_of :: "'c \<Rightarrow> string"
  set_to_list :: "string list \<Rightarrow> string list"
  major_iter :: "string list"
  geocode_reply :: "nat \<Rightarrow> string \<Rightarrow> reply"
  geocode_time :: "nat \<Rightarrow> rat"
  save_time :: "nat \<Rightarrow> rat"
  oversleep :: "nat \<Rightarrow> rat"

text \<open>
  The mutable attributes of a \<^verbatim>\<open>LocationParser\<close> object. \<^verbatim>\<open>__init__\<close> sets the cache to
  what \<^verbatim>\<open>_load_cache\<close> read and both counters to zero.
\<close>

record LocationParser =
  location_cache :: "string \<rightharpoonup> geocode_result"
  request_count :: nat
  last_request_time :: rat

definition init :: "(string \<rightharpoonup> geocode_result) \<Rightarrow> LocationParser" where
  "init loaded = \<lparr>location_cache = loaded, request_count = 0, last_request_time = 0\<rparr>"

text \<open>
  What lies outside the object: the clock read by \<^verbatim>\<open>time.time()\<close>, and a log of every
  \<^verbatim>\<open>time.sleep\<close> (the duration asked for), of every query sent to the geocoding service
  (send time, query text, reply) and of every call of \<^verbatim>\<open>_save_cache\<close> (the mapping it is
  given to write). Each log has its newest entry first.
\<close>

record world =
  now :: rat
  sleeps :: "rat list"
  requests :: "(rat \<times> string \<times> reply) list"
  saves :: "(string \<rightharpoonup> geocode_result) list"

text \<open>The queries of the request log that the service answered with a match.\<close>

fun is_found :: "reply \<Rightarrow> bool" where
  "is_found (Found loc) = True"
| "is_found NoMatch = False"
| "is_found (Raises e) = False"

definition successful :: "world \<Rightarrow> nat" where
  "successful w = length (filter (\<lambda>e. is_found (snd (snd e))) (requests w))"

definition sleep :: "'c env \<Rightarrow> rat \<Rightarrow> world \<Rightarrow> world" where
  "sleep env d w =
     w\<lparr>now := now w + d + oversleep env (length (sleeps w)), sleeps := d # sleeps w\<rparr>"

text \<open>
  \<^verbatim>\<open>self.geolocator.geocode(query, exactly_one=True)\<close>: the query is logged with the time
  it is sent at, and the clock moves on by the time the service takes.
\<close>

definition geocode :: "'c env \<Rightarrow> string \<Rightarrow> world \<Rightarrow> reply \<times> world" where
  "geocode env query w =
     (let n = length (requests w);
          r = geocode_reply env n query
      in (r, w\<lparr>now := now w + geocode_time env n, requests := (now w, query, r) # requests w\<rparr>))"

text \<open>
  \<^verbatim>\<open>_save_cache\<close>: the whole in-memory mapping is handed to the file system. A failing
  write is caught and logged by the source, so the call never raises.
\<close>

definition save_cache :: "'c env \<Rightarrow> LocationParser \<Rightarrow> world \<Rightarrow> world" where
  "save_cache env p w =
     w\<lparr>now := now w + save_time env (length (saves w)), saves := location_cache p # saves w\<rparr>"

definition respect_rate_limit ::
  "'c env \<Rightarrow> LocationParser \<times> world \<Rightarrow> LocationParser \<times> world" where
  "respect_rate_limit env st =
     (case st of (p, w) \<Rightarrow>
        let current_time = now w;
            elapsed = current_time - last_request_time p;
            w1 = (if elapsed < 1 then sleep env (1 - elapsed) w else w);
            p1 = p\<lparr>last_request_time := now w1, request_count := request_count p + 1\<rparr>
        in if request_count p1 mod 10 = 0 then (p1, save_cache env p1 w1) else (p1, w1))"

text \<open>
  Two predicates on the request log, for the rate limit. \<open>spaced g\<close> says that any two
  consecutive queries of the log were sent at least \<open>g\<close> seconds apart. \<open>limited d p w\<close>
  says that the log is spaced by \<open>1 - d\<close> and that its newest query was sent at most \<open>d\<close>
  seconds after the time stamp that the parser \<open>p\<close> holds in \<^verbatim>\<open>last_request_time\<close>; the
  bound \<open>d\<close> is for the cache write that \<^verbatim>\<open>_respect_rate_limit\<close> may make after it has taken
  the time stamp and before the query is sent.
\<close>

fun spaced :: "rat \<Rightarrow> (rat \<times> string \<times> reply) list \<Rightarrow> bool" where
  "spaced g [] = True"
| "spaced g [e] = True"
| "spaced g (e2 # e1 # es) = (fst e1 + g \<le> fst e2 \<and> spaced g (e1 # es))"

definition limited :: "rat \<Rightarrow> LocationParser \<Rightarrow> world \<Rightarrow> bool" where
  "limited d p w =
     (spaced (1 - d) (requests w) \<and>
      (case requests w of [] \<Rightarrow> True | e # es \<Rightarrow> fst e \<le> last_request_time p + d))"

section \<open>Location Extractor\<close>

definition find_locations_in_text :: "'c env \<Rightarrow> string \<Rightarrow> string list" where
  "find_locations_in_text env text_in =
     (if text_in = [] then []
      else
        let pattern_hits =
              concat (map (\<lambda>pre. filter (\<lambda>m. lower m \<notin> set IGNORE_LOCATIONS)
                                     (findall_pattern pre text_in)) LOCATION_PATTERNS);
            word_hits =
              filter (\<lambda>word. lower word \<in> set MAJOR_LOCATIONS \<and> lower word \<notin> set IGNORE_LOCATIONS)
                     (findall_words None text_in);
            text_lower = lower text_in;
            phrase_hits =
              concat (map (\<lambda>loc. if contains text_lower loc \<and> loc \<notin> set IGNORE_LOCATIONS
                                  then (case search_icase loc text_in of
                                          Some m \<Rightarrow> [m] | None \<Rightarrow> [])
                                  else []) (major_iter env))
        in set_to_list env (pattern_hits @ word_hits @ phrase_hits))"

definition extract_location_from_text :: "'c env \<Rightarrow> string \<Rightarrow> string option" where
  "extract_location_from_text env text_in =
     (if text_in = [] then None
      else case find_locations_in_text env text_in of
             [] \<Rightarrow> None
           | l # ls \<Rightarrow> Some l)"

text \<open>
  An absent profile and an empty one both fail the test \<^verbatim>\<open>if not user\<close>, and an empty
  profile yields \<open>None\<close> on the later path as well, so \<open>None\<close> stands for both.
\<close>

definition extract_location_from_user_profile ::
  "'c env \<Rightarrow> user_profile option \<Rightarrow> string option" where
  "extract_location_from_user_profile env u =
     (case u of
        None \<Rightarrow> None
      | Some usr \<Rightarrow>
          (case location usr of
             Some l \<Rightarrow>
               if l \<noteq> [] \<and> lower (strip l) \<notin> set IGNORE_LOCATIONS then Some (strip l)
               else (case description usr of
                       None \<Rightarrow> None
                     | Some d \<Rightarrow>
                         if d \<noteq> [] then
                           (case find_locations_in_text env d of [] \<Rightarrow> None | l' # ls \<Rightarrow> Some l')
                         else None)
           | None \<Rightarrow>
               (case description usr of
                  None \<Rightarrow> None
                | Some d \<Rightarrow>
                    if d \<noteq> [] then
                      (case find_locations_in_text env d of [] \<Rightarrow> None | l' # ls \<Rightarrow> Some l')
                    else None)))"

text \<open>Python's truth value of an optional string: \<^verbatim>\<open>None\<close> and \<^verbatim>\<open>''\<close> are false.\<close>

fun truthy :: "string option \<Rightarrow> bool" where
  "truthy None = False"
| "truthy (Some s) = (s \<noteq> [])"

text \<open>
  \<^verbatim>\<open>coords[0]\<close> and \<^verbatim>\<open>coords[1]\<close> raise \<^verbatim>\<open>IndexError\<close> on a list of one element; an empty
  list fails the truth test before it is indexed.
\<close>

definition extract_location_from_tweet :: "'c env \<Rightarrow> 'c tweet \<Rightarrow> error + string option" where
  "extract_location_from_tweet env t =
     (case geo_coordinates t of
        Some (lat # lon # others) \<Rightarrow> Inr (Some (str_of env lat @ '','' @ str_of env lon))
      | Some [lat] \<Rightarrow> Inl IndexError
      | _ \<Rightarrow>
          if truthy (place_full_name t) then Inr (place_full_name t)
          else
            let user_location = extract_location_from_user_profile env (user t)
            in if truthy user_location then Inr user_location
               else Inr (extract_location_from_text env (tweet_text t)))"

section \<open>Geocoder Gateway\<close>

text \<open>
  The term sent by the first query of \<^verbatim>\<open>geocode_location\<close>: the input itself when its
  lower-case form is in \<^verbatim>\<open>MAJOR_LOCATIONS\<close>, else the first entry of the set, in iteration
  order, that the lower-case input contains, else the input.
\<close>

definition search_term :: "'c env \<Rightarrow> string \<Rightarrow> string" where
  "search_term env location_str =
     (if lower location_str \<in> set MAJOR_LOCATIONS then location_str
      else case find (\<lambda>loc. contains (lower location_str) loc) (major_iter env) of
             None \<Rightarrow> location_str
           | Some found_location \<Rightarrow>
               if found_location \<noteq> [] then found_location else location_str)"

definition make_result :: "string \<Rightarrow> Location \<Rightarrow> geocode_result" where
  "make_result location_str loc =
     \<lparr>input = location_str, address = loc_address loc, latitude = loc_latitude loc,
      longitude = loc_longitude loc, raw = loc_raw loc\<rparr>"

definition store :: "string \<Rightarrow> geocode_result \<Rightarrow> LocationParser \<Rightarrow> LocationParser" where
  "store key result p = p\<lparr>location_cache := (location_cache p)(key \<mapsto> result)\<rparr>"

text \<open>
  The loop \<^verbatim>\<open>for word in words\<close> at the end of \<^verbatim>\<open>geocode_location\<close>. Its body is wrapped in
  a bare \<^verbatim>\<open>except: pass\<close>, so every exception of the service ends the attempt and the
  loop goes on with the next word.
\<close>

fun try_words ::
  "'c env \<Rightarrow> string \<Rightarrow> string list \<Rightarrow> LocationParser \<times> world
     \<Rightarrow> geocode_result option \<times> LocationParser \<times> world" where
  "try_words env location_str [] st = (None, st)"
| "try_words env location_str (word # words) st =
     (if lower word \<in> set MAJOR_LOCATIONS then
        (case respect_rate_limit env st of (p1, w1) \<Rightarrow>
           (case geocode env word w1 of
              (Found loc, w2) \<Rightarrow>
                (Some (make_result location_str loc),
                 store location_str (make_result location_str loc) p1, w2)
            | (NoMatch, w2) \<Rightarrow> try_words env location_str words (p1, w2)
            | (Raises e, w2) \<Rightarrow> try_words env location_str words (p1, w2)))
      else try_words env location_str words st)"

definition geocode_location ::
  "'c env \<Rightarrow> string \<Rightarrow> LocationParser \<times> world
     \<Rightarrow> (error + geocode_result option) \<times> LocationParser \<times> world" where
  "geocode_location env location_str st =
     (case st of (p, w) \<Rightarrow>
        (case location_cache p location_str of
           Some cached \<Rightarrow> (Inr (Some cached), p, w)
         | None \<Rightarrow>
             if location_str = [] then (Inr None, p, w)
             else
               (case respect_rate_limit env (p, w) of (p1, w1) \<Rightarrow>
                  (case geocode env (search_term env location_str) w1 of
                     (Found loc, w2) \<Rightarrow>
                       (Inr (Some (make_result location_str loc)),
                        store location_str (make_result location_str loc) p1, w2)
                   | (Raises OtherException, w2) \<Rightarrow> (Inl (Uncaught OtherException), p1, w2)
                   | (r, w2) \<Rightarrow>
                       if length (split location_str) > 1 then
                         (case try_words env location_str (split location_str) (p1, w2) of
                            (res, st') \<Rightarrow> (Inr res, st'))
                       else (Inr None, p1, w2)))))"

definition extract_and_save_coordinates ::
  "'c env \<Rightarrow> string \<Rightarrow> LocationParser \<times> world
     \<Rightarrow> (error + geocode_result option) \<times> LocationParser \<times> world" where
  "extract_and_save_coordinates env location_str st =
     (case geocode_location env location_str st of
        (Inr (Some result), p', w') \<Rightarrow> (Inr (Some result), p', save_cache env p' w')
      | other \<Rightarrow> other)"

text \<open>\<^verbatim>\<open>x or ''\<close> for an optional string.\<close>

fun or_empty :: "string option \<Rightarrow> string" where
  "or_empty None = []"
| "or_empty (Some x) = x"

fun json_of :: "string option \<Rightarrow> json" where
  "json_of None = JNull"
| "json_of (Some x) = JString x"

definition variations :: "string \<Rightarrow> string list" where
  "variations location_str =
     [''in '' @ location_str, ''from '' @ location_str, ''at '' @ location_str,
      ''near '' @ location_str, ''to '' @ location_str]"

definition known_result ::
  "string \<Rightarrow> rat \<Rightarrow> rat \<Rightarrow> string option \<Rightarrow> string option \<Rightarrow> string option
     \<Rightarrow> geocode_result" where
  "known_result location_str lat lon addr city country =
     (let address' = (if truthy addr then or_empty addr
                      else or_empty city @ '', '' @ or_empty country)
      in \<lparr>input = location_str, address = address', latitude = lat, longitude = lon,
          raw = JObject
            [(''place_id'', JString (''manual_'' @ replace (CHR '' '') (CHR ''_'') location_str)),
             (''display_name'', JString address'),
             (''address'', JObject [(''city'', json_of city), (''country'', json_of country)])]\<rparr>)"

definition add_known_location ::
  "'c env \<Rightarrow> string \<Rightarrow> rat \<Rightarrow> rat \<Rightarrow> string option \<Rightarrow> string option \<Rightarrow> string option
     \<Rightarrow> LocationParser \<times> world \<Rightarrow> LocationParser \<times> world" where
  "add_known_location env location_str lat lon addr city country st =
     (case st of (p, w) \<Rightarrow>
        let result = known_result location_str lat lon addr city country;
            p1 = store location_str result p;
            w1 = save_cache env p1 w;
            p2 = fold (\<lambda>var q. store var result q) (variations location_str) p1
        in (p2, save_cache env p2 w1))"

subsection \<open>The cascade as the specification describes it\<close>

text \<open>
  The specification describes the queries of one call as a cascade: the primary query
  sends the search term, and when the input has several white-space separated tokens
  there is one further query for each token that matches the gazetteer, in token order.
  \<open>cascade_queries\<close> is that list. \<open>cascade_outcome env n qs\<close> walks it with the service
  having received \<open>n\<close> queries before: an attempt that raises or finds no match counts as
  no result and the next attempt is made, and the first match ends the cascade. It
  returns the match together with the number of queries the service has received by
  then, or \<open>None\<close> when every attempt failed. Both are compared with \<^verbatim>\<open>geocode_location\<close>
  below.
\<close>

definition cascade_queries :: "'c env \<Rightarrow> string \<Rightarrow> string list" where
  "cascade_queries env s =
     search_term env s #
     (if 1 < length (split s) then filter (\<lambda>word. lower word \<in> set MAJOR_LOCATIONS) (split s)
      else [])"

fun cascade_outcome :: "'c env \<Rightarrow> nat \<Rightarrow> string list \<Rightarrow> (Location \<times> nat) option" where
  "cascade_outcome env n [] = None"
| "cascade_outcome env n (q # qs) =
     (case geocode_reply env n q of
        Found loc \<Rightarrow> Some (loc, Suc n)
      | NoMatch \<Rightarrow> cascade_outcome env (Suc n) qs
      | Raises e \<Rightarrow> cascade_outcome env (Suc n) qs)"

section \<open>Pipeline Orchestrator\<close>

definition parse_tweet_location ::
  "'c env \<Rightarrow> 'c tweet \<Rightarrow> LocationParser \<times> world
     \<Rightarrow> (error + 'c tweet \<times> enriched_location) \<times> LocationParser \<times> world" where
  "parse_tweet_location env t st =
     (case extract_location_from_tweet env t of
        Inl e \<Rightarrow> (Inl e, st)
      | Inr location_str \<Rightarrow>
          if truthy location_str then
            (case geocode_location env (or_empty location_str) st of
               (Inl e, st') \<Rightarrow> (Inl e, st')
             | (Inr geocoded_data, st') \<Rightarrow>
                 (Inr (t, \<lparr>raw_location = location_str, geocoded = geocoded_data\<rparr>), st'))
          else (Inr (t, \<lparr>raw_location = location_str, geocoded = None\<rparr>), st))"

text \<open>
  The loop of \<^verbatim>\<open>parse_tweets_location\<close>. An exception raised for one tweet leaves the
  loop and the function, as nothing in \<^verbatim>\<open>parse_tweets_location\<close> catches it.
\<close>

fun parse_each ::
  "'c env \<Rightarrow> 'c tweet list \<Rightarrow> LocationParser \<times> world
     \<Rightarrow> (error + ('c tweet \<times> enriched_location) list) \<times> LocationParser \<times> world" where
  "parse_each env [] st = (Inr [], st)"
| "parse_each env (t # ts) st =
     (case parse_tweet_location env t st of
        (Inl e, st') \<Rightarrow> (Inl e, st')
      | (Inr r, st') \<Rightarrow>
          (case parse_each env ts st' of
             (Inl e, st'') \<Rightarrow> (Inl e, st'')
           | (Inr rs, st'') \<Rightarrow> (Inr (r # rs), st'')))"

definition parse_tweets_location ::
  "'c env \<Rightarrow> 'c tweet list \<Rightarrow> LocationParser \<times> world
     \<Rightarrow> (error + ('c tweet \<times> enriched_location) list) \<times> LocationParser \<times> world" where
  "parse_tweets_location env tweets st =
     (case parse_each env tweets st of
        (Inl e, st') \<Rightarrow> (Inl e, st')
      | (Inr result, p', w') \<Rightarrow> (Inr result, p', save_cache env p' w'))"

section \<open>Example inputs\<close>

text \<open>
  Concrete environments and states for the examples below: a service that always finds
  London, one whose first query times out, one whose first two queries fail with a
  timeout and a service error, one that is unavailable and one that never finds a match; a world whose clock reads 1000 seconds with empty logs; and a parser
  that was started on an empty cache file.
\<close>

definition london :: Location where
  "london = \<lparr>loc_address = ''London, Greater London, England, United Kingdom'',
     loc_latitude = 51.5074, loc_longitude = - 0.1278,
     loc_raw = JObject [(''osm_type'', JString ''relation'')]\<rparr>"

definition example_str :: "rat \<Rightarrow> string" where
  "example_str x = (if x = 51.5074 then ''51.5074'' else if x = - 0.1278 then ''-0.1278'' else ''0.0'')"

definition env_found :: "rat env" where
  "env_found = \<lparr>str_of = example_str, set_to_list = remdups, major_iter = MAJOR_LOCATIONS,
     geocode_reply = (\<lambda>n q. Found london),
     geocode_time = (\<lambda>n. 1 / 4), save_time = (\<lambda>n. 0), oversleep = (\<lambda>n. 0)\<rparr>"

definition env_retry :: "rat env" where
  "env_retry = env_found\<lparr>geocode_reply := (\<lambda>n q. if n = 0 then Raises GeocoderTimedOut else Found london)\<rparr>"

definition env_flaky :: "rat env" where
  "env_flaky = env_found\<lparr>geocode_reply :=
     (\<lambda>n q. if n = 0 then Raises GeocoderTimedOut
            else if n = 1 then Raises GeocoderServiceError
            else Found london)\<rparr>"

definition env_down :: "rat env" where
  "env_down = env_found\<lparr>geocode_reply := (\<lambda>n q. Raises GeocoderUnavailable)\<rparr>"

definition env_nomatch :: "rat env" where
  "env_nomatch = env_found\<lparr>geocode_reply := (\<lambda>n q. NoMatch)\<rparr>"

definition world0 :: world where
  "world0 = \<lparr>now = 1000, sleeps = [], requests = [], saves = []\<rparr>"

definition fresh :: LocationParser where
  "fresh = init Map.empty"

definition springfield_tweet :: "rat tweet" where
  "springfield_tweet = \<lparr>tweet_text = ''What a game'', geo_coordinates = None,
     place_full_name = Some ''Springfield'', user = None\<rparr>"

text \<open>
  The tweet of the source's own example and of the specification's scenario, and two
  user profiles: one with a real location, one whose location is the ignored term
  \<^verbatim>\<open>Twitter\<close>, and one whose location is a single space.
\<close>

definition london_tweet :: "rat tweet" where
  "london_tweet = \<lparr>tweet_text = ''Amazing match in London! #GoTeam'', geo_coordinates = None,
     place_full_name = None, user = None\<rparr>"

definition manchester_user :: user_profile where
  "manchester_user = \<lparr>location = Some ''Manchester, UK'', description = None\<rparr>"

definition twitter_user :: user_profile where
  "twitter_user = \<lparr>location = Some ''Twitter'', description = Some ''Fan based in Berlin''\<rparr>"

definition blank_user :: user_profile where
  "blank_user = \<lparr>location = Some '' '', description = Some ''Fan based in Berlin''\<rparr>"

section \<open>Properties of the Geocoder Gateway\<close>

subsection \<open>What a call does to the cache and to the request log\<close>

lemma respect_rate_limit_cache:
  "respect_rate_limit env (p, w) = (p1, w1) \<Longrightarrow> location_cache p1 = location_cache p"
  by (auto simp: respect_rate_limit_def Let_def split: if_splits)

lemma respect_rate_limit_count:
  "respect_rate_limit env (p, w) = (p1, w1) \<Longrightarrow> request_count p1 = request_count p + 1"
  by (auto simp: respect_rate_limit_def Let_def split: if_splits)

lemma respect_rate_limit_requests:
  "respect_rate_limit env (p, w) = (p1, w1) \<Longrightarrow> requests w1 = requests w"
  by (auto simp: respect_rate_limit_def Let_def sleep_def save_cache_def split: if_splits)

lemma geocode_requests:
  "geocode env q w = (r, w') \<Longrightarrow> requests w' = (now w, q, r) # requests w"
  by (auto simp: geocode_def Let_def)

lemma store_cache: "location_cache (store k r p) = (location_cache p)(k \<mapsto> r)"
  by (simp add: store_def)

lemma try_words_cache:
  "try_words env s ws (p, w) = (res, p', w') \<Longrightarrow>
     (case res of
        None \<Rightarrow> location_cache p' = location_cache p
      | Some r \<Rightarrow> location_cache p' = (location_cache p)(s \<mapsto> r) \<and> input r = s)"
proof (induction ws arbitrary: p w)
  case Nil
  then show ?case by simp
next
  case (Cons word ws)
  show ?case
  proof (cases "lower word \<in> set MAJOR_LOCATIONS")
    case False
    with Cons show ?thesis by simp
  next
    case True
    obtain p1 w1 where rl: "respect_rate_limit env (p, w) = (p1, w1)"
      by (cases "respect_rate_limit env (p, w)")
    obtain r w2 where gc: "geocode env word w1 = (r, w2)"
      by (cases "geocode env word w1")
    have c1: "location_cache p1 = location_cache p"
      using rl by (rule respect_rate_limit_cache)
    show ?thesis
    proof (cases r)
      case (Found loc)
      with Cons.prems True rl gc c1 show ?thesis
        by (auto simp: store_cache make_result_def)
    next
      case NoMatch
      with Cons.prems True rl gc have "try_words env s ws (p1, w2) = (res, p', w')"
        by simp
      from Cons.IH[OF this] c1 show ?thesis by (cases res) simp_all
    next
      case (Raises e)
      with Cons.prems True rl gc have "try_words env s ws (p1, w2) = (res, p', w')"
        by simp
      from Cons.IH[OF this] c1 show ?thesis by (cases res) simp_all
    qed
  qed
qed

lemma geocode_location_cache:
  assumes "geocode_location env s (p, w) = (res, p', w')"
  shows "case res of
           Inr (Some r) \<Rightarrow>
             (location_cache p s = Some r \<and> p' = p \<and> w' = w) \<or>
             (location_cache p s = None \<and> location_cache p' = (location_cache p)(s \<mapsto> r) \<and> input r = s)
         | _ \<Rightarrow> location_cache p' = location_cache p \<and> location_cache p s = None"
proof (cases "location_cache p s")
  case (Some cached)
  with assms show ?thesis by (auto simp: geocode_location_def)
next
  case None
  show ?thesis
  proof (cases "s = []")
    case True
    with None assms show ?thesis by (auto simp: geocode_location_def)
  next
    case False
    obtain p1 w1 where rl: "respect_rate_limit env (p, w) = (p1, w1)"
      by (cases "respect_rate_limit env (p, w)")
    obtain r w2 where gc: "geocode env (search_term env s) w1 = (r, w2)"
      by (cases "geocode env (search_term env s) w1")
    have c1: "location_cache p1 = location_cache p"
      using rl by (rule respect_rate_limit_cache)
    obtain tr tp tw where tw: "try_words env s (split s) (p1, w2) = (tr, tp, tw)"
      by (cases "try_words env s (split s) (p1, w2)")
    note tc = try_words_cache[OF tw]
    from assms None False rl gc c1 tw tc show ?thesis
      by (auto simp: geocode_location_def store_cache make_result_def
               split: reply.splits exc.splits if_splits option.splits)
  qed
qed


lemma respect_rate_limit_requests_length:
  "length (requests (snd (respect_rate_limit env (p, w)))) = length (requests w)"
  by (cases "respect_rate_limit env (p, w)") (auto dest: respect_rate_limit_requests)

lemma try_words_requests_mono:
  "length (requests w) \<le> length (requests (snd (snd (try_words env s ws (p, w)))))"
proof (induction ws arbitrary: p w)
  case Nil
  then show ?case by simp
next
  case (Cons word ws)
  show ?case
  proof (cases "lower word \<in> set MAJOR_LOCATIONS")
    case False
    with Cons show ?thesis by simp
  next
    case True
    obtain p1 w1 where rl: "respect_rate_limit env (p, w) = (p1, w1)"
      by (cases "respect_rate_limit env (p, w)")
    obtain r w2 where gc: "geocode env word w1 = (r, w2)"
      by (cases "geocode env word w1")
    have l2: "length (requests w2) = Suc (length (requests w))"
      using respect_rate_limit_requests[OF rl] geocode_requests[OF gc] by simp
    have "length (requests w2) \<le> length (requests (snd (snd (try_words env s ws (p1, w2)))))"
      by (rule Cons.IH)
    with True rl gc l2 show ?thesis
      by (cases r) auto
  qed
qed

lemma geocode_location_miss_requests:
  assumes "location_cache p s = None" and "s \<noteq> []"
  shows "length (requests w) < length (requests (snd (snd (geocode_location env s (p, w)))))"
proof -
  obtain p1 w1 where rl: "respect_rate_limit env (p, w) = (p1, w1)"
    by (cases "respect_rate_limit env (p, w)")
  obtain r w2 where gc: "geocode env (search_term env s) w1 = (r, w2)"
    by (cases "geocode env (search_term env s) w1")
  have l2: "length (requests w2) = Suc (length (requests w))"
    using respect_rate_limit_requests[OF rl] geocode_requests[OF gc] by simp
  have "length (requests w2) \<le> length (requests (snd (snd (try_words env s (split s) (p1, w2)))))"
    by (rule try_words_requests_mono)
  with assms rl gc l2 show ?thesis
    by (auto simp: geocode_location_def split: reply.splits exc.splits prod.splits)
qed

subsection \<open>Idempotence through the cache\<close>

text \<open>
  Claim C2. If a call of \<^verbatim>\<open>geocode_location\<close> on the string \<open>s\<close> returns a result \<open>r\<close>,
  then a second call on \<open>s\<close>, made in the state the first call left, returns the same
  \<open>r\<close> and leaves the parser and the world exactly as they were: the request log has no
  new query, the sleep log has no new sleep, the clock has not moved and nothing was
  written.
\<close>

theorem geocode_location_idempotent:
  assumes "geocode_location env s (p, w) = (Inr (Some r), p', w')"
  shows "geocode_location env s (p', w') = (Inr (Some r), p', w')"
proof -
  from geocode_location_cache[OF assms]
  have "location_cache p' s = Some r" by auto
  then show ?thesis by (simp add: geocode_location_def)
qed

theorem geocode_location_idempotent_witness:
  "fst (geocode_location env_found ''London'' (fresh, world0)) = Inr (Some (make_result ''London'' london)) \<and>
   geocode_location env_found ''London'' (snd (geocode_location env_found ''London'' (fresh, world0)))
     = (Inr (Some (make_result ''London'' london)), snd (geocode_location env_found ''London'' (fresh, world0)))"
proof -
  let ?X = "geocode_location env_found ''London'' (fresh, world0)"
  have h: "fst ?X = Inr (Some (make_result ''London'' london))"
    by code_simp
  then have "?X = (Inr (Some (make_result ''London'' london)), fst (snd ?X), snd (snd ?X))"
    by (metis prod.collapse)
  from geocode_location_idempotent[OF this] h show ?thesis
    by simp
qed

subsection \<open>Cache-key fidelity\<close>

text \<open>
  Claim C3. When \<open>s\<close> is not in the cache and \<^verbatim>\<open>geocode_location\<close> returns a result for
  it, from the first query or from a query for one of its words, the cache afterwards is
  the old cache with exactly one new entry: its key is the input string \<open>s\<close>, whatever
  term was sent to the service, and the \<open>input\<close> field of the stored result is \<open>s\<close>.
\<close>

theorem geocode_location_cache_key:
  assumes "location_cache p s = None"
    and "geocode_location env s (p, w) = (Inr (Some r), p', w')"
  shows "location_cache p' = (location_cache p)(s \<mapsto> r) \<and> input r = s"
  using geocode_location_cache[OF assms(2)] assms(1) by auto

text \<open>
  For the input \<^verbatim>\<open>Visit London\<close> the first query sends the gazetteer entry \<^verbatim>\<open>london\<close> and
  times out, the query for the word \<^verbatim>\<open>London\<close> succeeds, and the entry is stored under
  \<^verbatim>\<open>Visit London\<close>.
\<close>

theorem geocode_location_cache_key_witness:
  "location_cache fresh ''Visit London'' = None \<and>
   map (\<lambda>e. fst (snd e)) (requests (snd (snd (geocode_location env_retry ''Visit London'' (fresh, world0)))))
     = [''London'', ''london''] \<and>
   location_cache (fst (snd (geocode_location env_retry ''Visit London'' (fresh, world0))))
     = (location_cache fresh)(''Visit London'' \<mapsto> make_result ''Visit London'' london) \<and>
   input (make_result ''Visit London'' london) = ''Visit London''"
proof -
  let ?X = "geocode_location env_retry ''Visit London'' (fresh, world0)"
  have m: "location_cache fresh ''Visit London'' = None"
    by (simp add: fresh_def init_def)
  have h: "fst ?X = Inr (Some (make_result ''Visit London'' london))"
    by code_simp
  have q: "map (\<lambda>e. fst (snd e)) (requests (snd (snd ?X))) = [''London'', ''london'']"
    by code_simp
  from h have "?X = (Inr (Some (make_result ''Visit London'' london)), fst (snd ?X), snd (snd ?X))"
    by (metis prod.collapse)
  from geocode_location_cache_key[OF m this] m q show ?thesis
    by simp
qed

subsection \<open>Failures write nothing\<close>

text \<open>
  Claim C10. Whenever \<^verbatim>\<open>geocode_location\<close> returns \<^verbatim>\<open>None\<close>, the in-memory cache is the
  same mapping after the call as before it and has no entry for the input, so a later
  call on the same non-empty string sends at least one query to the service again.
\<close>

theorem geocode_location_failure_atomic:
  assumes "geocode_location env s (p, w) = (Inr None, p', w')"
  shows "location_cache p' = location_cache p \<and> location_cache p' s = None \<and>
         (s \<noteq> [] \<longrightarrow>
            length (requests w') < length (requests (snd (snd (geocode_location env s (p', w'))))))"
proof -
  from geocode_location_cache[OF assms]
  have c: "location_cache p' = location_cache p" and m: "location_cache p s = None"
    by auto
  from c m have m': "location_cache p' s = None" by simp
  from geocode_location_miss_requests[OF m'] c m' show ?thesis by blast
qed

theorem geocode_location_failure_atomic_witness:
  "fst (geocode_location env_down ''Visit London'' (fresh, world0)) = Inr None \<and>
   location_cache (fst (snd (geocode_location env_down ''Visit London'' (fresh, world0)))) = location_cache fresh \<and>
   location_cache (fst (snd (geocode_location env_down ''Visit London'' (fresh, world0)))) ''Visit London'' = None \<and>
   length (requests (snd (snd (geocode_location env_down ''Visit London'' (fresh, world0)))))
     < length (requests (snd (snd (geocode_location env_down ''Visit London''
         (snd (geocode_location env_down ''Visit London'' (fresh, world0)))))))"
proof -
  let ?X = "geocode_location env_down ''Visit London'' (fresh, world0)"
  have h: "fst ?X = Inr None"
    by code_simp
  then have "?X = (Inr None, fst (snd ?X), snd (snd ?X))"
    by (metis prod.collapse)
  from geocode_location_failure_atomic[OF this] h show ?thesis
    by (simp add: fresh_def init_def)
qed

subsection \<open>Errors of the service\<close>

lemma geocode_reply_of:
  "geocode env q w = (r, w') \<Longrightarrow> r = geocode_reply env (length (requests w)) q"
  by (auto simp: geocode_def Let_def)

lemma try_words_all_fail:
  assumes "\<forall>n q loc. geocode_reply env n q \<noteq> Found loc"
  shows "fst (try_words env s ws (p, w)) = None"
proof (induction ws arbitrary: p w)
  case Nil
  then show ?case by simp
next
  case (Cons word ws)
  show ?case
  proof (cases "lower word \<in> set MAJOR_LOCATIONS")
    case False
    with Cons show ?thesis by simp
  next
    case True
    obtain p1 w1 where rl: "respect_rate_limit env (p, w) = (p1, w1)"
      by (cases "respect_rate_limit env (p, w)")
    obtain r w2 where gc: "geocode env word w1 = (r, w2)"
      by (cases "geocode env word w1")
    from geocode_reply_of[OF gc] assms have "\<forall>loc. r \<noteq> Found loc" by simp
    with True rl gc Cons.IH[of p1 w2] show ?thesis
      by (cases r) auto
  qed
qed

lemma try_words_cascade:
  "try_words env s ws (p, w) = (res, p', w') \<Longrightarrow>
     (case cascade_outcome env (length (requests w))
             (filter (\<lambda>word. lower word \<in> set MAJOR_LOCATIONS) ws) of
        None \<Rightarrow> res = None \<and>
                length (requests w') = length (requests w)
                  + length (filter (\<lambda>word. lower word \<in> set MAJOR_LOCATIONS) ws)
      | Some (loc, n) \<Rightarrow> res = Some (make_result s loc) \<and> length (requests w') = n)"
proof (induction ws arbitrary: p w)
  case Nil
  then show ?case by simp
next
  case (Cons word ws)
  show ?case
  proof (cases "lower word \<in> set MAJOR_LOCATIONS")
    case False
    with Cons.prems have "try_words env s ws (p, w) = (res, p', w')"
      by simp
    from Cons.IH[OF this] False show ?thesis
      by (auto split: option.splits)
  next
    case True
    obtain p1 w1 where rl: "respect_rate_limit env (p, w) = (p1, w1)"
      by (cases "respect_rate_limit env (p, w)")
    obtain r w2 where gc: "geocode env word w1 = (r, w2)"
      by (cases "geocode env word w1")
    have len1: "length (requests w1) = length (requests w)"
      using respect_rate_limit_requests[OF rl] by simp
    have r_def: "r = geocode_reply env (length (requests w)) word"
      using geocode_reply_of[OF gc] len1 by simp
    have len2: "length (requests w2) = Suc (length (requests w))"
      using geocode_requests[OF gc] len1 by simp
    show ?thesis
    proof (cases r)
      case (Found loc)
      with gc have gc': "geocode env word w1 = (Found loc, w2)" by simp
      from Found r_def have reply: "geocode_reply env (length (requests w)) word = Found loc"
        by simp
      from Cons.prems True rl gc'
      have "res = Some (make_result s loc) \<and> w' = w2"
        by auto
      with True reply len2 show ?thesis by simp
    next
      case NoMatch
      with gc have gc': "geocode env word w1 = (NoMatch, w2)" by simp
      from NoMatch r_def have reply: "geocode_reply env (length (requests w)) word = NoMatch"
        by simp
      from Cons.prems True rl gc' have "try_words env s ws (p1, w2) = (res, p', w')"
        by simp
      from Cons.IH[OF this] True reply len2 show ?thesis
        by (auto split: option.splits)
    next
      case (Raises e)
      with gc have gc': "geocode env word w1 = (Raises e, w2)" by simp
      from Raises r_def have reply: "geocode_reply env (length (requests w)) word = Raises e"
        by simp
      from Cons.prems True rl gc' have "try_words env s ws (p1, w2) = (res, p', w')"
        by simp
      from Cons.IH[OF this] True reply len2 show ?thesis
        by (auto split: option.splits)
    qed
  qed
qed

text \<open>
  Claim C7. Suppose every exception the service raises belongs to one of the three
  classes \<^verbatim>\<open>GeocoderTimedOut\<close>, \<^verbatim>\<open>GeocoderUnavailable\<close>, \<^verbatim>\<open>GeocoderServiceError\<close>. Then
  \<^item> \<^verbatim>\<open>geocode_location\<close> never raises: it returns a value;
  \<^item> if no attempt finds a match (each one raises or finds nothing) and the input is not
    cached, it returns \<^verbatim>\<open>None\<close>;
  \<^item> on an input that is not empty and not cached, the call returns exactly the outcome of
    the cascade: the result built from the first attempt that finds a match, every
    attempt before it that raised or found nothing having been passed over, whether it
    was the primary query or the query for a token; and the service has then received
    the queries up to that attempt, or all of them when none finds a match.
\<close>

theorem geocode_location_catches_transient:
  assumes "\<forall>n q e. geocode_reply env n q = Raises e \<longrightarrow> transient e"
  shows "(\<exists>res. fst (geocode_location env s (p, w)) = Inr res) \<and>
         (location_cache p s = None \<and> (\<forall>n q loc. geocode_reply env n q \<noteq> Found loc)
            \<longrightarrow> fst (geocode_location env s (p, w)) = Inr None) \<and>
         (location_cache p s = None \<and> s \<noteq> [] \<longrightarrow>
            fst (geocode_location env s (p, w))
              = Inr (map_option (\<lambda>found. make_result s (fst found))
                      (cascade_outcome env (length (requests w)) (cascade_queries env s))) \<and>
            length (requests (snd (snd (geocode_location env s (p, w)))))
              = (case cascade_outcome env (length (requests w)) (cascade_queries env s) of
                   None \<Rightarrow> length (requests w) + length (cascade_queries env s)
                 | Some found \<Rightarrow> snd found))"
proof -
  obtain p1 w1 where rl: "respect_rate_limit env (p, w) = (p1, w1)"
    by (cases "respect_rate_limit env (p, w)")
  obtain r w2 where gc: "geocode env (search_term env s) w1 = (r, w2)"
    by (cases "geocode env (search_term env s) w1")
  have len1: "length (requests w1) = length (requests w)"
    using respect_rate_limit_requests[OF rl] by simp
  have r_def: "r = geocode_reply env (length (requests w)) (search_term env s)"
    using geocode_reply_of[OF gc] len1 by simp
  have len2: "length (requests w2) = Suc (length (requests w))"
    using geocode_requests[OF gc] len1 by simp
  have no_other: "r \<noteq> Raises OtherException"
    using assms r_def by (metis transient.simps(4))
  have a: "\<exists>res. fst (geocode_location env s (p, w)) = Inr res"
    using rl gc no_other
    by (auto simp: geocode_location_def split: option.splits reply.splits exc.splits prod.splits)
  have b: "fst (geocode_location env s (p, w)) = Inr None"
    if miss: "location_cache p s = None" and nf: "\<forall>n q loc. geocode_reply env n q \<noteq> Found loc"
  proof -
    have "fst (try_words env s (split s) (p1, w2)) = None"
      using nf by (rule try_words_all_fail)
    moreover have "\<forall>loc. r \<noteq> Found loc" using nf r_def by simp
    ultimately show ?thesis
      using miss rl gc no_other
      by (auto simp: geocode_location_def split: reply.splits exc.splits prod.splits)
  qed
  have c: "fst (geocode_location env s (p, w))
              = Inr (map_option (\<lambda>found. make_result s (fst found))
                      (cascade_outcome env (length (requests w)) (cascade_queries env s))) \<and>
            length (requests (snd (snd (geocode_location env s (p, w)))))
              = (case cascade_outcome env (length (requests w)) (cascade_queries env s) of
                   None \<Rightarrow> length (requests w) + length (cascade_queries env s)
                 | Some found \<Rightarrow> snd found)"
    if miss: "location_cache p s = None" and ne: "s \<noteq> []"
  proof (cases r)
    case (Found loc)
    with gc have gc': "geocode env (search_term env s) w1 = (Found loc, w2)" by simp
    from Found r_def
    have reply: "geocode_reply env (length (requests w)) (search_term env s) = Found loc"
      by simp
    from miss ne rl gc' have "geocode_location env s (p, w)
        = (Inr (Some (make_result s loc)), store s (make_result s loc) p1, w2)"
      by (simp add: geocode_location_def)
    with reply len2 show ?thesis
      by (simp add: cascade_queries_def)
  next
    case NoMatch
    with gc have gc': "geocode env (search_term env s) w1 = (NoMatch, w2)" by simp
    from NoMatch r_def
    have reply: "geocode_reply env (length (requests w)) (search_term env s) = NoMatch"
      by simp
    show ?thesis
    proof (cases "1 < length (split s)")
      case False
      with miss ne rl gc' have "geocode_location env s (p, w) = (Inr None, p1, w2)"
        by (simp add: geocode_location_def)
      with False reply len2 show ?thesis
        by (simp add: cascade_queries_def)
    next
      case True
      obtain tr tp tw where tw: "try_words env s (split s) (p1, w2) = (tr, tp, tw)"
        by (cases "try_words env s (split s) (p1, w2)")
      from True miss ne rl gc' tw
      have run: "geocode_location env s (p, w) = (Inr tr, tp, tw)"
        by (simp add: geocode_location_def)
      from try_words_cascade[OF tw] True reply len2 run show ?thesis
        by (auto simp: cascade_queries_def split: option.splits)
    qed
  next
    case (Raises e)
    with no_other have e: "e \<noteq> OtherException" by simp
    from Raises gc have gc': "geocode env (search_term env s) w1 = (Raises e, w2)" by simp
    from Raises r_def
    have reply: "geocode_reply env (length (requests w)) (search_term env s) = Raises e"
      by simp
    show ?thesis
    proof (cases "1 < length (split s)")
      case False
      with e miss ne rl gc' have "geocode_location env s (p, w) = (Inr None, p1, w2)"
        by (cases e) (simp_all add: geocode_location_def)
      with False reply len2 show ?thesis
        by (simp add: cascade_queries_def)
    next
      case True
      obtain tr tp tw where tw: "try_words env s (split s) (p1, w2) = (tr, tp, tw)"
        by (cases "try_words env s (split s) (p1, w2)")
      from True e miss ne rl gc' tw
      have run: "geocode_location env s (p, w) = (Inr tr, tp, tw)"
        by (cases e) (simp_all add: geocode_location_def)
      from try_words_cascade[OF tw] True reply len2 run show ?thesis
        by (auto simp: cascade_queries_def split: option.splits)
    qed
  qed
  from a b c show ?thesis by blast
qed

text \<open>
  On \<^verbatim>\<open>London Paris\<close> the primary query times out and the query for the token
  \<^verbatim>\<open>London\<close> fails with a service error; the query for \<^verbatim>\<open>Paris\<close> is still sent and its
  answer is returned. With the service unavailable throughout the call returns \<open>None\<close>.
\<close>

theorem geocode_location_catches_transient_witness:
  "fst (geocode_location env_flaky ''London Paris'' (fresh, world0))
     = Inr (Some (make_result ''London Paris'' london)) \<and>
   map (fst \<circ> snd)
       (requests (snd (snd (geocode_location env_flaky ''London Paris'' (fresh, world0)))))
     = [''Paris'', ''London'', ''london''] \<and>
   map (snd \<circ> snd)
       (requests (snd (snd (geocode_location env_flaky ''London Paris'' (fresh, world0)))))
     = [Found london, Raises GeocoderServiceError, Raises GeocoderTimedOut] \<and>
   fst (geocode_location env_down ''Visit London'' (fresh, world0)) = Inr None"
proof -
  have t1: "\<forall>n q e. geocode_reply env_flaky n q = Raises e \<longrightarrow> transient e"
    by (simp add: env_flaky_def env_found_def)
  have t2: "\<forall>n q e. geocode_reply env_down n q = Raises e \<longrightarrow> transient e"
    by (auto simp: env_down_def env_found_def)
  have miss1: "location_cache fresh ''London Paris'' = None"
    by (simp add: fresh_def init_def)
  have miss2: "location_cache fresh ''Visit London'' = None"
    by (simp add: fresh_def init_def)
  have out: "cascade_outcome env_flaky (length (requests world0))
               (cascade_queries env_flaky ''London Paris'') = Some (london, 3)"
    by code_simp
  have sent: "map (fst \<circ> snd)
       (requests (snd (snd (geocode_location env_flaky ''London Paris'' (fresh, world0)))))
     = [''Paris'', ''London'', ''london'']"
    by code_simp
  have replies: "map (snd \<circ> snd)
       (requests (snd (snd (geocode_location env_flaky ''London Paris'' (fresh, world0)))))
     = [Found london, Raises GeocoderServiceError, Raises GeocoderTimedOut]"
    by code_simp
  have nf: "\<forall>n q loc. geocode_reply env_down n q \<noteq> Found loc"
    by (simp add: env_down_def env_found_def)
  from geocode_location_catches_transient[OF t1, of "''London Paris''" fresh world0] miss1 out
  have "fst (geocode_location env_flaky ''London Paris'' (fresh, world0))
     = Inr (Some (make_result ''London Paris'' london))"
    by simp
  moreover
  from geocode_location_catches_transient[OF t2, of "''Visit London''" fresh world0] miss2 nf
  have "fst (geocode_location env_down ''Visit London'' (fresh, world0)) = Inr None"
    by simp
  ultimately show ?thesis using sent replies by simp
qed

section \<open>Properties of the manual insert\<close>

lemma fold_store_cache:
  "location_cache (fold (\<lambda>var q. store var result q) vars p) k
     = (if k \<in> set vars then Some result else location_cache p k)"
  by (induction vars arbitrary: p) (auto simp: store_cache)

lemma add_known_location_cache:
  assumes "add_known_location env s lat lon addr city country (p, w) = (p', w')"
  shows "location_cache p' k
     = (if k = s \<or> k \<in> set (variations s) then Some (known_result s lat lon addr city country)
        else location_cache p k)"
  using assms
  by (auto simp: add_known_location_def Let_def fold_store_cache store_cache)

lemma known_result_fields:
  "input (known_result s lat lon addr city country) = s \<and>
   latitude (known_result s lat lon addr city country) = lat \<and>
   longitude (known_result s lat lon addr city country) = lon \<and>
   address (known_result s lat lon addr city country) \<noteq> []"
  by (cases addr) (auto simp: known_result_def Let_def)

text \<open>
  Claim C9. After \<^verbatim>\<open>add_known_location\<close> has inserted \<open>s\<close> with the coordinates \<open>lat\<close> and
  \<open>lon\<close>, \<^verbatim>\<open>geocode_location\<close> on \<open>s\<close> returns the inserted result, whose latitude and
  longitude are \<open>lat\<close> and \<open>lon\<close>, and leaves the parser and the world as they were: no
  query is sent, nothing sleeps and nothing is written.
\<close>

theorem add_known_location_round_trip:
  assumes "add_known_location env s lat lon addr city country (p, w) = (p', w')"
  shows "geocode_location env s (p', w')
           = (Inr (Some (known_result s lat lon addr city country)), p', w') \<and>
         latitude (known_result s lat lon addr city country) = lat \<and>
         longitude (known_result s lat lon addr city country) = lon"
proof -
  have "location_cache p' s = Some (known_result s lat lon addr city country)"
    using add_known_location_cache[OF assms, of s] by simp
  then show ?thesis
    by (simp add: geocode_location_def known_result_fields)
qed

text \<open>
  The call of the source's own example, \<^verbatim>\<open>add_known_location("London", 51.5074, -0.1278,
  city="London", country="United Kingdom")\<close>, with a service that is unavailable.
\<close>

theorem add_known_location_round_trip_witness:
  "map_sum id (map_option latitude)
     (fst (geocode_location env_down ''London''
        (add_known_location env_down ''London'' 51.5074 (- 0.1278) None (Some ''London'')
           (Some ''United Kingdom'') (fresh, world0)))) = Inr (Some 51.5074) \<and>
   map_sum id (map_option longitude)
     (fst (geocode_location env_down ''London''
        (add_known_location env_down ''London'' 51.5074 (- 0.1278) None (Some ''London'')
           (Some ''United Kingdom'') (fresh, world0)))) = Inr (Some (- 0.1278)) \<and>
   requests (snd (snd (geocode_location env_down ''London''
        (add_known_location env_down ''London'' 51.5074 (- 0.1278) None (Some ''London'')
           (Some ''United Kingdom'') (fresh, world0))))) = []"
proof -
  let ?st = "add_known_location env_down ''London'' 51.5074 (- 0.1278) None (Some ''London'')
           (Some ''United Kingdom'') (fresh, world0)"
  have st: "?st = (fst ?st, snd ?st)" by simp
  have r0: "requests (snd ?st) = []"
    by (simp add: add_known_location_def Let_def save_cache_def world0_def)
  from add_known_location_round_trip[OF st] r0 show ?thesis
    by simp
qed

text \<open>
  Claim C4, as stated, fails for the variants: the entry that the manual insert of
  \<^verbatim>\<open>London\<close> stores under the key \<^verbatim>\<open>in London\<close> has the \<open>input\<close> field \<^verbatim>\<open>London\<close>.
\<close>

theorem variation_input_counterexample:
  "map_option input
     (location_cache (fst (add_known_location env_down ''London'' 51.5074 (- 0.1278) None
        (Some ''London'') (Some ''United Kingdom'') (fresh, world0))) ''in London'')
     = Some ''London'' \<and> ''London'' \<noteq> ''in London''"
  by code_simp

text \<open>
  Claim C4, amended. An entry that \<^verbatim>\<open>geocode_location\<close> writes is stored under the input
  string and its \<open>input\<close> field is that key. A manual insert of \<open>s\<close> stores one and the
  same result under \<open>s\<close> and under the five variants \<^verbatim>\<open>in s\<close>, \<^verbatim>\<open>from s\<close>, \<^verbatim>\<open>at s\<close>,
  \<^verbatim>\<open>near s\<close>, \<^verbatim>\<open>to s\<close>, and changes no other key; the \<open>input\<close> field of that result is
  \<open>s\<close> under all six keys, its coordinates are the ones given and its address is not
  empty. Every cached value is a \<^typ>\<open>geocode_result\<close>, which has all of \<open>address\<close>,
  \<open>latitude\<close> and \<open>longitude\<close>.
\<close>

theorem cache_entries_written:
  "(geocode_location env s (p, w) = (res, p', w') \<longrightarrow>
      (\<forall>k. location_cache p' k \<noteq> location_cache p k \<longrightarrow>
            k = s \<and> (\<exists>r. location_cache p' k = Some r \<and> input r = k))) \<and>
   (add_known_location env s lat lon addr city country (p, w) = (p2, w2) \<longrightarrow>
      (\<forall>k. location_cache p2 k =
             (if k = s \<or> k \<in> set (variations s)
              then Some (known_result s lat lon addr city country)
              else location_cache p k)) \<and>
      input (known_result s lat lon addr city country) = s \<and>
      latitude (known_result s lat lon addr city country) = lat \<and>
      longitude (known_result s lat lon addr city country) = lon \<and>
      address (known_result s lat lon addr city country) \<noteq> [])"
proof -
  have a: "k = s \<and> (\<exists>r. location_cache p' k = Some r \<and> input r = k)"
    if run: "geocode_location env s (p, w) = (res, p', w')"
      and changed: "location_cache p' k \<noteq> location_cache p k" for k
  proof -
    from geocode_location_cache[OF run] changed
    obtain r where "res = Inr (Some r)" "location_cache p' = (location_cache p)(s \<mapsto> r)" "input r = s"
      by (auto split: sum.splits option.splits)
    with changed show ?thesis by (auto split: if_splits)
  qed
  have b: "location_cache p2 k =
             (if k = s \<or> k \<in> set (variations s)
              then Some (known_result s lat lon addr city country)
              else location_cache p k)"
    if "add_known_location env s lat lon addr city country (p, w) = (p2, w2)" for k
    using that by (rule add_known_location_cache)
  from a b known_result_fields[of s lat lon addr city country] show ?thesis
    by blast
qed

theorem cache_entries_written_witness:
  "map_option input
     (location_cache (fst (snd (geocode_location env_found ''London'' (fresh, world0)))) ''London'')
     = Some ''London'' \<and>
   map_option input
     (location_cache (fst (add_known_location env_found ''London'' 51.5074 (- 0.1278) None
        (Some ''London'') (Some ''United Kingdom'') (fresh, world0))) ''near London'')
     = Some ''London'' \<and>
   map_option latitude
     (location_cache (fst (add_known_location env_found ''London'' 51.5074 (- 0.1278) None
        (Some ''London'') (Some ''United Kingdom'') (fresh, world0))) ''near London'')
     = Some 51.5074"
proof -
  let ?X = "geocode_location env_found ''London'' (fresh, world0)"
  let ?A = "add_known_location env_found ''London'' 51.5074 (- 0.1278) None
        (Some ''London'') (Some ''United Kingdom'') (fresh, world0)"
  have x: "?X = (fst ?X, fst (snd ?X), snd (snd ?X))" by simp
  have a: "?A = (fst ?A, snd ?A)" by simp
  have c: "location_cache (fst (snd ?X)) ''London'' \<noteq> location_cache fresh ''London''"
    by code_simp
  have v: "''near London'' \<in> set (variations ''London'')"
    by (simp add: variations_def)
  note inst = cache_entries_written[where env = env_found and s = "''London''" and p = fresh
      and w = world0 and res = "fst ?X" and p' = "fst (snd ?X)" and w' = "snd (snd ?X)"
      and lat = "51.5074" and lon = "- 0.1278" and addr = None and city = "Some ''London''"
      and country = "Some ''United Kingdom''" and ?p2.0 = "fst ?A" and ?w2.0 = "snd ?A"]
  from inst x c have "\<exists>r. location_cache (fst (snd ?X)) ''London'' = Some r \<and> input r = ''London''"
    by blast
  then have g: "map_option input (location_cache (fst (snd ?X)) ''London'') = Some ''London''"
    by auto
  from inst a have m: "location_cache (fst ?A) ''near London'' =
      Some (known_result ''London'' 51.5074 (- 0.1278) None (Some ''London'') (Some ''United Kingdom''))"
    using v by metis
  from inst have "input (known_result ''London'' 51.5074 (- 0.1278) None (Some ''London'') (Some ''United Kingdom'')) = ''London''"
    and "latitude (known_result ''London'' 51.5074 (- 0.1278) None (Some ''London'') (Some ''United Kingdom'')) = 51.5074"
    using a by blast+
  with g m show ?thesis by simp
qed

section \<open>Properties of the batch orchestrator\<close>

subsection \<open>Counting requests and cache writes\<close>

text \<open>
  Every pass through \<^verbatim>\<open>_respect_rate_limit\<close> is followed by exactly one query, so the
  request counter of the parser and the request log grow together; and the number of
  cache writes grows with the number of multiples of 10 the counter passes.
\<close>

lemma div10_step:
  "(if Suc c mod 10 = 0 then Suc (c div 10) else c div 10) = Suc c div 10"
  by presburger

lemma respect_rate_limit_saves:
  "respect_rate_limit env (p, w) = (p1, w1) \<Longrightarrow>
     saves w1 = (if request_count p1 mod 10 = 0 then location_cache p1 # saves w else saves w)"
  by (auto simp: respect_rate_limit_def Let_def sleep_def save_cache_def split: if_splits)

lemma respect_rate_limit_balance:
  assumes "respect_rate_limit env (p, w) = (p1, w1)"
  shows "length (saves w1) + request_count p div 10 = length (saves w) + request_count p1 div 10"
proof -
  have c: "request_count p1 = Suc (request_count p)"
    using respect_rate_limit_count[OF assms] by simp
  from respect_rate_limit_saves[OF assms] c div10_step[of "request_count p"]
  show ?thesis by (auto split: if_splits)
qed

lemma geocode_saves: "geocode env q w = (r, w') \<Longrightarrow> saves w' = saves w"
  by (auto simp: geocode_def Let_def)

lemma store_count: "request_count (store k r p) = request_count p"
  by (simp add: store_def)

lemma attempt_balance:
  assumes "respect_rate_limit env (p, w) = (p1, w1)" and "geocode env q w1 = (r, w2)"
  shows "request_count p1 + length (requests w) = request_count p + length (requests w2) \<and>
         length (saves w2) + request_count p div 10 = length (saves w) + request_count p1 div 10"
  using respect_rate_limit_count[OF assms(1)] respect_rate_limit_requests[OF assms(1)]
    respect_rate_limit_balance[OF assms(1)] geocode_requests[OF assms(2)] geocode_saves[OF assms(2)]
  by simp

lemma try_words_balance:
  "try_words env s ws (p, w) = (res, p', w') \<Longrightarrow>
     request_count p' + length (requests w) = request_count p + length (requests w') \<and>
     length (saves w') + request_count p div 10 = length (saves w) + request_count p' div 10"
proof (induction ws arbitrary: p w)
  case Nil
  then show ?case by simp
next
  case (Cons word ws)
  show ?case
  proof (cases "lower word \<in> set MAJOR_LOCATIONS")
    case False
    with Cons show ?thesis by simp
  next
    case True
    obtain p1 w1 where rl: "respect_rate_limit env (p, w) = (p1, w1)"
      by (cases "respect_rate_limit env (p, w)")
    obtain r w2 where gc: "geocode env word w1 = (r, w2)"
      by (cases "geocode env word w1")
    note ab = attempt_balance[OF rl gc]
    show ?thesis
    proof (cases r)
      case (Found loc)
      with Cons.prems True rl gc ab show ?thesis
        by (auto simp: store_count)
    next
      case NoMatch
      with Cons.prems True rl gc have "try_words env s ws (p1, w2) = (res, p', w')"
        by simp
      from Cons.IH[OF this] ab show ?thesis by auto
    next
      case (Raises e)
      with Cons.prems True rl gc have "try_words env s ws (p1, w2) = (res, p', w')"
        by simp
      from Cons.IH[OF this] ab show ?thesis by auto
    qed
  qed
qed

lemma geocode_location_balance:
  assumes "geocode_location env s (p, w) = (res, p', w')"
  shows "request_count p' + length (requests w) = request_count p + length (requests w') \<and>
         length (saves w') + request_count p div 10 = length (saves w) + request_count p' div 10"
proof (cases "location_cache p s = None \<and> s \<noteq> []")
  case False
  with assms show ?thesis
    by (auto simp: geocode_location_def split: option.splits if_splits)
next
  case True
  obtain p1 w1 where rl: "respect_rate_limit env (p, w) = (p1, w1)"
    by (cases "respect_rate_limit env (p, w)")
  obtain r w2 where gc: "geocode env (search_term env s) w1 = (r, w2)"
    by (cases "geocode env (search_term env s) w1")
  note ab = attempt_balance[OF rl gc]
  obtain tr tp tw where tw: "try_words env s (split s) (p1, w2) = (tr, tp, tw)"
    by (cases "try_words env s (split s) (p1, w2)")
  note tb = try_words_balance[OF tw]
  from True assms rl gc tw
  have "(p' = p1 \<or> (\<exists>loc. p' = store s (make_result s loc) p1)) \<and> w' = w2 \<or> p' = tp \<and> w' = tw"
    by (auto simp: geocode_location_def split: reply.splits exc.splits if_splits)
  then show ?thesis
  proof (elim disjE conjE exE)
    assume "p' = p1" "w' = w2"
    with ab show ?thesis by simp
  next
    fix loc assume "p' = store s (make_result s loc) p1" "w' = w2"
    with ab show ?thesis by (simp add: store_count)
  next
    assume "p' = tp" "w' = tw"
    with ab tb show ?thesis by auto
  qed
qed

lemma parse_tweet_location_balance:
  assumes "parse_tweet_location env t (p, w) = (res, p', w')"
  shows "request_count p' + length (requests w) = request_count p + length (requests w') \<and>
         length (saves w') + request_count p div 10 = length (saves w) + request_count p' div 10"
proof (cases "extract_location_from_tweet env t")
  case (Inl e)
  with assms show ?thesis by (simp add: parse_tweet_location_def)
next
  case (Inr location_str)
  show ?thesis
  proof (cases "truthy location_str")
    case False
    with Inr assms show ?thesis by (simp add: parse_tweet_location_def)
  next
    case True
    obtain gr gp gw where g: "geocode_location env (or_empty location_str) (p, w) = (gr, gp, gw)"
      by (cases "geocode_location env (or_empty location_str) (p, w)")
    from Inr True g assms have "p' = gp \<and> w' = gw"
      by (auto simp: parse_tweet_location_def split: sum.splits)
    with geocode_location_balance[OF g] show ?thesis by simp
  qed
qed

lemma parse_each_balance:
  "parse_each env ts (p, w) = (res, p', w') \<Longrightarrow>
     request_count p' + length (requests w) = request_count p + length (requests w') \<and>
     length (saves w') + request_count p div 10 = length (saves w) + request_count p' div 10"
proof (induction ts arbitrary: p w res p' w')
  case Nil
  then show ?case by simp
next
  case (Cons t ts)
  obtain r1 p1 w1 where one: "parse_tweet_location env t (p, w) = (r1, p1, w1)"
    by (cases "parse_tweet_location env t (p, w)")
  note b1 = parse_tweet_location_balance[OF one]
  show ?case
  proof (cases r1)
    case (Inl e)
    with Cons.prems one b1 show ?thesis by simp
  next
    case (Inr r)
    obtain r2 p2 w2 where rest: "parse_each env ts (p1, w1) = (r2, p2, w2)"
      by (cases "parse_each env ts (p1, w1)")
    from Cons.prems one Inr rest have "p' = p2 \<and> w' = w2"
      by (auto split: sum.splits)
    with Cons.IH[OF rest] b1 show ?thesis by auto
  qed
qed

subsection \<open>A batch whose queries all fail\<close>

lemma springfield_extract:
  "extract_location_from_tweet env springfield_tweet = Inr (Some ''Springfield'')"
  by (simp add: extract_location_from_tweet_def springfield_tweet_def)

lemma springfield_term: "search_term env_nomatch ''Springfield'' = ''Springfield''"
  by code_simp

lemma springfield_words: "split ''Springfield'' = [''Springfield'']"
  by code_simp

lemma successful_Cons:
  "successful (w\<lparr>requests := (t, q, r) # requests w\<rparr>) = (if is_found r then Suc (successful w) else successful w)"
  by (simp add: successful_def)

lemma springfield_once:
  assumes "location_cache p ''Springfield'' = None"
  shows "\<exists>r p1 w1. parse_tweet_location env_nomatch springfield_tweet (p, w) = (Inr r, p1, w1) \<and>
           location_cache p1 = location_cache p \<and>
           length (requests w1) = Suc (length (requests w)) \<and>
           successful w1 = successful w"
proof -
  obtain p1 w1 where rl: "respect_rate_limit env_nomatch (p, w) = (p1, w1)"
    by (cases "respect_rate_limit env_nomatch (p, w)")
  obtain r w2 where gc: "geocode env_nomatch ''Springfield'' w1 = (r, w2)"
    by (cases "geocode env_nomatch ''Springfield'' w1")
  have r: "r = NoMatch"
    using geocode_reply_of[OF gc] by (simp add: env_nomatch_def env_found_def)
  have s1: "successful w1 = successful w"
    using respect_rate_limit_requests[OF rl] by (simp add: successful_def)
  have s2: "successful w2 = successful w1"
    using geocode_requests[OF gc] r by (simp add: successful_def)
  have "parse_tweet_location env_nomatch springfield_tweet (p, w)
          = (Inr (springfield_tweet, \<lparr>raw_location = Some ''Springfield'', geocoded = None\<rparr>), p1, w2)"
    using assms rl gc r
    by (simp add: parse_tweet_location_def springfield_extract geocode_location_def
          springfield_term springfield_words)
  moreover have "location_cache p1 = location_cache p"
    using rl by (rule respect_rate_limit_cache)
  moreover have "length (requests w2) = Suc (length (requests w))"
    using respect_rate_limit_requests[OF rl] geocode_requests[OF gc] by simp
  ultimately show ?thesis using s1 s2 by simp
qed

lemma springfield_batch:
  assumes "location_cache p ''Springfield'' = None"
  shows "\<exists>out p' w'. parse_each env_nomatch (replicate n springfield_tweet) (p, w) = (Inr out, p', w') \<and>
           length (requests w') = length (requests w) + n \<and> successful w' = successful w"
  using assms
proof (induction n arbitrary: p w)
  case 0
  then show ?case by simp
next
  case (Suc n)
  from springfield_once[OF Suc.prems, of w]
  obtain r p1 w1 where one: "parse_tweet_location env_nomatch springfield_tweet (p, w) = (Inr r, p1, w1)"
    and c1: "location_cache p1 = location_cache p"
    and l1: "length (requests w1) = Suc (length (requests w))"
    and s1: "successful w1 = successful w"
    by blast
  from c1 Suc.prems have "location_cache p1 ''Springfield'' = None" by simp
  from Suc.IH[OF this, of w1]
  obtain out p' w' where rest: "parse_each env_nomatch (replicate n springfield_tweet) (p1, w1) = (Inr out, p', w')"
    and l2: "length (requests w') = length (requests w1) + n"
    and s2: "successful w' = successful w1"
    by blast
  from one rest have "parse_each env_nomatch (replicate (Suc n) springfield_tweet) (p, w) = (Inr (r # out), p', w')"
    by simp
  with l1 l2 s1 s2 show ?case by simp
qed

lemma successful_save: "successful (save_cache env p w) = successful w"
  by (simp add: successful_def save_cache_def)

lemma springfield_flushes:
  "length (saves (snd (snd (parse_tweets_location env_nomatch (replicate n springfield_tweet)
      (fresh, world0))))) = Suc (n div 10) \<and>
   successful (snd (snd (parse_tweets_location env_nomatch (replicate n springfield_tweet)
      (fresh, world0)))) = 0 \<and>
   length (requests (snd (snd (parse_tweets_location env_nomatch (replicate n springfield_tweet)
      (fresh, world0))))) = n \<and>
   \<not> isl (fst (parse_tweets_location env_nomatch (replicate n springfield_tweet) (fresh, world0)))"
proof -
  have miss: "location_cache fresh ''Springfield'' = None"
    by (simp add: fresh_def init_def)
  from springfield_batch[OF miss, of n world0]
  obtain out p' w' where each: "parse_each env_nomatch (replicate n springfield_tweet) (fresh, world0) = (Inr out, p', w')"
    and l: "length (requests w') = length (requests world0) + n"
    and s: "successful w' = successful world0"
    by blast
  have start: "request_count fresh = 0" "requests world0 = []" "saves world0 = []" "successful world0 = 0"
    by (simp_all add: fresh_def init_def world0_def successful_def)
  from parse_each_balance[OF each] l start
  have "request_count p' = n" "length (saves w') = n div 10"
    by simp_all
  moreover have "parse_tweets_location env_nomatch (replicate n springfield_tweet) (fresh, world0)
      = (Inr out, p', save_cache env_nomatch p' w')"
    using each by (simp add: parse_tweets_location_def)
  ultimately show ?thesis using l s start
    by (simp add: successful_save) (simp add: save_cache_def)
qed

text \<open>
  Claim C6, as stated, fails: a new parser that processes ten tweets, each with one
  query that finds nothing, calls \<^verbatim>\<open>_save_cache\<close> twice (once when the tenth query is
  counted, once at the end of the batch), although no query was successful and one
  flush plus \<open>0 div 10\<close> periodic flushes would be one call.
\<close>

theorem ten_failed_queries_flush_counterexample:
  "length (saves (snd (snd (parse_tweets_location env_nomatch (replicate 10 springfield_tweet)
      (fresh, world0))))) = 2 \<and>
   1 + successful (snd (snd (parse_tweets_location env_nomatch (replicate 10 springfield_tweet)
      (fresh, world0)))) div 10 = 1"
  using springfield_flushes[of 10] by simp

text \<open>
  Claim C6, amended. \<^verbatim>\<open>_respect_rate_limit\<close> counts every query that is about to be sent,
  whatever its outcome, and calls \<^verbatim>\<open>_save_cache\<close> exactly when the parser's count
  reaches a multiple of 10. Over a call of \<^verbatim>\<open>parse_tweets_location\<close> the count grows by the
  number of queries sent, the periodic flushes are as many as the multiples of 10 the
  count passes, and there is exactly one more flush, at the end, when the call returns;
  when an exception leaves the call there is no final flush.
\<close>

theorem parse_tweets_location_flushes:
  "(respect_rate_limit env (q, v) = (q1, v1) \<longrightarrow>
      request_count q1 = request_count q + 1 \<and>
      saves v1 = (if request_count q1 mod 10 = 0 then location_cache q1 # saves v else saves v)) \<and>
   (parse_tweets_location env tweets (p, w) = (res, p', w') \<longrightarrow>
      request_count p' + length (requests w) = request_count p + length (requests w') \<and>
      length (saves w') + request_count p div 10
        = length (saves w) + request_count p' div 10 + (case res of Inl e \<Rightarrow> 0 | Inr out \<Rightarrow> 1))"
proof -
  have b: "request_count p' + length (requests w) = request_count p + length (requests w') \<and>
      length (saves w') + request_count p div 10
        = length (saves w) + request_count p' div 10 + (case res of Inl e \<Rightarrow> 0 | Inr out \<Rightarrow> 1)"
    if run: "parse_tweets_location env tweets (p, w) = (res, p', w')"
  proof -
    obtain r1 p1 w1 where each: "parse_each env tweets (p, w) = (r1, p1, w1)"
      by (cases "parse_each env tweets (p, w)")
    note pb = parse_each_balance[OF each]
    show ?thesis
    proof (cases r1)
      case (Inl e)
      with run each pb show ?thesis by (auto simp: parse_tweets_location_def)
    next
      case (Inr out)
      with run each have "res = Inr out" "p' = p1" "w' = save_cache env p1 w1"
        by (auto simp: parse_tweets_location_def)
      with pb show ?thesis by (simp add: save_cache_def)
    qed
  qed
  have a: "request_count q1 = request_count q + 1 \<and>
      saves v1 = (if request_count q1 mod 10 = 0 then location_cache q1 # saves v else saves v)"
    if "respect_rate_limit env (q, v) = (q1, v1)"
    using respect_rate_limit_count[OF that] respect_rate_limit_saves[OF that] by simp
  from a b show ?thesis by blast
qed

text \<open>
  Twenty-five tweets whose queries all fail, on a new parser: 25 queries, none of them
  successful, and three flushes.
\<close>

theorem parse_tweets_location_flushes_witness:
  "length (requests (snd (snd (parse_tweets_location env_nomatch (replicate 25 springfield_tweet)
      (fresh, world0))))) = 25 \<and>
   successful (snd (snd (parse_tweets_location env_nomatch (replicate 25 springfield_tweet)
      (fresh, world0)))) = 0 \<and>
   length (saves (snd (snd (parse_tweets_location env_nomatch (replicate 25 springfield_tweet)
      (fresh, world0))))) = 3"
proof -
  let ?X = "parse_tweets_location env_nomatch (replicate 25 springfield_tweet) (fresh, world0)"
  have x: "?X = (fst ?X, fst (snd ?X), snd (snd ?X))" by simp
  from springfield_flushes[of 25]
  have ok: "\<not> isl (fst ?X)" and n: "length (requests (snd (snd ?X))) = 25"
    and z: "successful (snd (snd ?X)) = 0"
    by simp_all
  have start: "request_count fresh = 0" "requests world0 = []" "saves world0 = []"
    by (simp_all add: fresh_def init_def world0_def)
  from parse_tweets_location_flushes[where tweets = "replicate 25 springfield_tweet"
      and env = env_nomatch and p = fresh and w = world0 and res = "fst ?X"
      and p' = "fst (snd ?X)" and w' = "snd (snd ?X)"] x
  have "request_count (fst (snd ?X)) + length (requests world0)
          = request_count fresh + length (requests (snd (snd ?X)))"
    and "length (saves (snd (snd ?X))) + request_count fresh div 10
        = length (saves world0) + request_count (fst (snd ?X)) div 10
          + (case fst ?X of Inl e \<Rightarrow> 0 | Inr out \<Rightarrow> 1)"
    by blast+
  moreover from ok have "(case fst ?X of Inl e \<Rightarrow> 0 | Inr out \<Rightarrow> 1) = (1::nat)"
    by (cases "fst ?X") auto
  ultimately have "length (saves (snd (snd ?X))) = 3"
    using n start by simp
  with n z show ?thesis by simp
qed

section \<open>Properties of the rate limiter\<close>

lemma spaced_Cons:
  "spaced g (e # es) = ((case es of [] \<Rightarrow> True | e1 # rest \<Rightarrow> fst e1 + g \<le> fst e) \<and> spaced g es)"
  by (cases es) auto

lemma respect_rate_limit_sleeps:
  "respect_rate_limit env (p, w) = (p1, w1) \<Longrightarrow>
     sleeps w1 = (if now w - last_request_time p < 1
                  then (1 - (now w - last_request_time p)) # sleeps w else sleeps w)"
  by (auto simp: respect_rate_limit_def Let_def sleep_def save_cache_def split: if_splits)

lemma respect_rate_limit_time:
  assumes over: "\<forall>n. 0 \<le> oversleep env n"
    and save: "\<forall>n. 0 \<le> save_time env n \<and> save_time env n \<le> d"
    and rl: "respect_rate_limit env (p, w) = (p1, w1)"
  shows "last_request_time p + 1 \<le> last_request_time p1 \<and>
         last_request_time p1 \<le> now w1 \<and> now w1 \<le> last_request_time p1 + d"
proof -
  define wa where "wa = (if now w - last_request_time p < 1
                         then sleep env (1 - (now w - last_request_time p)) w else w)"
  have stamp: "last_request_time p1 = now wa"
    using rl by (auto simp: respect_rate_limit_def Let_def wa_def split: if_splits)
  have after: "now w1 = now wa \<or> now w1 = now wa + save_time env (length (saves wa))"
    using rl by (auto simp: respect_rate_limit_def Let_def wa_def save_cache_def split: if_splits)
  from save have "0 \<le> save_time env 0 \<and> save_time env 0 \<le> d" by blast
  then have d0: "0 \<le> d" by simp
  have "last_request_time p + 1 \<le> now wa"
  proof (cases "now w - last_request_time p < 1")
    case True
    then have "now wa = last_request_time p + 1 + oversleep env (length (sleeps w))"
      by (simp add: wa_def sleep_def)
    with over show ?thesis by simp
  next
    case False
    then show ?thesis by (simp add: wa_def)
  qed
  moreover have "now wa \<le> now w1 \<and> now w1 \<le> now wa + d"
  proof -
    from save have "0 \<le> save_time env (length (saves wa)) \<and> save_time env (length (saves wa)) \<le> d"
      by blast
    with after d0 show ?thesis by auto
  qed
  ultimately show ?thesis using stamp by simp
qed

lemma attempt_limited:
  assumes over: "\<forall>n. 0 \<le> oversleep env n"
    and save: "\<forall>n. 0 \<le> save_time env n \<and> save_time env n \<le> d"
    and lim: "limited d p w"
    and rl: "respect_rate_limit env (p, w) = (p1, w1)"
    and gc: "geocode env q w1 = (r, w2)"
  shows "limited d p1 w2"
proof -
  note t = respect_rate_limit_time[OF over save rl]
  have reqs: "requests w2 = (now w1, q, r) # requests w"
    using geocode_requests[OF gc] respect_rate_limit_requests[OF rl] by simp
  have old: "spaced (1 - d) (requests w)"
    using lim by (simp add: limited_def)
  have gap: "case requests w of [] \<Rightarrow> True | e1 # rest \<Rightarrow> fst e1 + (1 - d) \<le> now w1"
  proof (cases "requests w")
    case Nil
    then show ?thesis by simp
  next
    case (Cons e1 rest)
    with lim have "fst e1 \<le> last_request_time p + d"
      by (simp add: limited_def)
    with t Cons show ?thesis by simp
  qed
  show ?thesis
  proof (cases "requests w")
    case Nil
    with t show ?thesis by (simp add: limited_def reqs)
  next
    case (Cons e1 rest)
    with old gap t show ?thesis by (simp add: limited_def reqs)
  qed
qed

lemma limited_store: "limited d (store k r p) w = limited d p w"
  by (cases "requests w") (simp_all add: limited_def store_def)

lemma try_words_limited:
  assumes over: "\<forall>n. 0 \<le> oversleep env n"
    and save: "\<forall>n. 0 \<le> save_time env n \<and> save_time env n \<le> d"
  shows "limited d p w \<Longrightarrow> try_words env s ws (p, w) = (res, p', w') \<Longrightarrow> limited d p' w'"
proof (induction ws arbitrary: p w)
  case Nil
  then show ?case by simp
next
  case (Cons word ws)
  show ?case
  proof (cases "lower word \<in> set MAJOR_LOCATIONS")
    case False
    with Cons show ?thesis by simp
  next
    case True
    obtain p1 w1 where rl: "respect_rate_limit env (p, w) = (p1, w1)"
      by (cases "respect_rate_limit env (p, w)")
    obtain r w2 where gc: "geocode env word w1 = (r, w2)"
      by (cases "geocode env word w1")
    note l2 = attempt_limited[OF over save Cons.prems(1) rl gc]
    show ?thesis
    proof (cases r)
      case (Found loc)
      with Cons.prems(2) True rl gc l2 show ?thesis
        by (auto simp: limited_store)
    next
      case NoMatch
      with Cons.prems(2) True rl gc have "try_words env s ws (p1, w2) = (res, p', w')"
        by simp
      from Cons.IH[OF l2 this] show ?thesis .
    next
      case (Raises e)
      with Cons.prems(2) True rl gc have "try_words env s ws (p1, w2) = (res, p', w')"
        by simp
      from Cons.IH[OF l2 this] show ?thesis .
    qed
  qed
qed

lemma geocode_location_limited:
  assumes over: "\<forall>n. 0 \<le> oversleep env n"
    and save: "\<forall>n. 0 \<le> save_time env n \<and> save_time env n \<le> d"
    and lim: "limited d p w"
    and run: "geocode_location env s (p, w) = (res, p', w')"
  shows "limited d p' w'"
proof (cases "location_cache p s = None \<and> s \<noteq> []")
  case False
  with run lim show ?thesis
    by (auto simp: geocode_location_def split: option.splits if_splits)
next
  case True
  obtain p1 w1 where rl: "respect_rate_limit env (p, w) = (p1, w1)"
    by (cases "respect_rate_limit env (p, w)")
  obtain r w2 where gc: "geocode env (search_term env s) w1 = (r, w2)"
    by (cases "geocode env (search_term env s) w1")
  note l2 = attempt_limited[OF over save lim rl gc]
  obtain tr tp tw where tw: "try_words env s (split s) (p1, w2) = (tr, tp, tw)"
    by (cases "try_words env s (split s) (p1, w2)")
  note l3 = try_words_limited[OF over save l2 tw]
  from True run rl gc tw
  have "(p' = p1 \<or> (\<exists>loc. p' = store s (make_result s loc) p1)) \<and> w' = w2 \<or> p' = tp \<and> w' = tw"
    by (auto simp: geocode_location_def split: reply.splits exc.splits if_splits)
  with l2 l3 show ?thesis
    by (auto simp: limited_store)
qed

text \<open>
  Claim C5, as stated, fails for two parser objects in one process: each has its own
  \<^verbatim>\<open>last_request_time\<close>, so a second parser that starts after the first has sent a query
  at time 1000 sends its own first query a quarter of a second later (the time the first
  query took), without sleeping.
\<close>

theorem two_parsers_rate_limit_counterexample:
  "map fst (requests (snd (snd (geocode_location env_found ''Paris''
      (fresh, snd (snd (geocode_location env_found ''London'' (fresh, world0)))))))) = [4001 / 4, 1000] \<and>
   \<not> spaced 1 (requests (snd (snd (geocode_location env_found ''Paris''
      (fresh, snd (snd (geocode_location env_found ''London'' (fresh, world0))))))))"
  by code_simp

text \<open>
  Claim C5, amended. Assume that a sleep never ends early and that a cache write takes
  between 0 and \<open>d\<close> seconds. Each pass through \<^verbatim>\<open>_respect_rate_limit\<close> of a parser sets
  its time stamp at least 1 second after its previous one, and sleeps for exactly the
  remainder \<open>1 - elapsed\<close> when less than 1 second has elapsed since then and not at all
  otherwise. For the queries of one parser, first queries and queries for single words
  alike, \<^verbatim>\<open>geocode_location\<close> keeps the log \<open>limited\<close>: consecutive queries are at least
  \<open>1 - d\<close> seconds apart, which is 1 second when the cache write takes no time.
\<close>

theorem rate_limit_per_instance:
  assumes "\<forall>n. 0 \<le> oversleep env n"
    and "\<forall>n. 0 \<le> save_time env n \<and> save_time env n \<le> d"
  shows "(respect_rate_limit env (q, v) = (q1, v1) \<longrightarrow>
            last_request_time q + 1 \<le> last_request_time q1 \<and>
            sleeps v1 = (if now v - last_request_time q < 1
                         then (1 - (now v - last_request_time q)) # sleeps v else sleeps v)) \<and>
         (limited d p w \<and> geocode_location env s (p, w) = (res, p', w') \<longrightarrow> limited d p' w')"
proof (intro conjI impI)
  assume rl: "respect_rate_limit env (q, v) = (q1, v1)"
  from respect_rate_limit_time[OF assms rl]
  show "last_request_time q + 1 \<le> last_request_time q1" by simp
  from rl show "sleeps v1 = (if now v - last_request_time q < 1
                         then (1 - (now v - last_request_time q)) # sleeps v else sleeps v)"
    by (rule respect_rate_limit_sleeps)
next
  assume "limited d p w \<and> geocode_location env s (p, w) = (res, p', w')"
  then show "limited d p' w'"
    using geocode_location_limited[OF assms] by blast
qed

text \<open>
  For \<^verbatim>\<open>Visit London\<close> with a first query that times out after a quarter of a second,
  the parser sleeps three quarters of a second and sends the second query at 1001.
\<close>

theorem rate_limit_per_instance_witness:
  "limited 0 fresh world0 \<and>
   map fst (requests (snd (snd (geocode_location env_retry ''Visit London'' (fresh, world0)))))
     = [1001, 1000] \<and>
   sleeps (snd (snd (geocode_location env_retry ''Visit London'' (fresh, world0)))) = [3 / 4] \<and>
   spaced 1 (requests (snd (snd (geocode_location env_retry ''Visit London'' (fresh, world0)))))"
proof -
  let ?X = "geocode_location env_retry ''Visit London'' (fresh, world0)"
  have x: "?X = (fst ?X, fst (snd ?X), snd (snd ?X))" by simp
  have over: "\<forall>n. 0 \<le> oversleep env_retry n"
    by (simp add: env_retry_def env_found_def)
  have save: "\<forall>n. 0 \<le> save_time env_retry n \<and> save_time env_retry n \<le> 0"
    by (simp add: env_retry_def env_found_def)
  have start: "limited 0 fresh world0"
    by (simp add: limited_def world0_def)
  have times: "map fst (requests (snd (snd ?X))) = [1001, 1000]"
    by code_simp
  have slept: "sleeps (snd (snd ?X)) = [3 / 4]"
    by code_simp
  from rate_limit_per_instance[OF over save, where p = fresh and w = world0
      and s = "''Visit London''" and res = "fst ?X" and p' = "fst (snd ?X)" and w' = "snd (snd ?X)"]
    start x
  have "limited 0 (fst (snd ?X)) (snd (snd ?X))" by blast
  then have "spaced 1 (requests (snd (snd ?X)))"
    by (simp add: limited_def)
  with start times slept show ?thesis by simp
qed

section \<open>Properties of the Location Extractor\<close>

lemma find_locations_in_text_empty: "find_locations_in_text env [] = []"
  by (simp add: find_locations_in_text_def)

lemma extract_location_from_text_eq:
  "extract_location_from_text env d =
     (case find_locations_in_text env d of [] \<Rightarrow> None | m # ms \<Rightarrow> Some m)"
  by (simp add: extract_location_from_text_def find_locations_in_text_empty)

lemma profile_description:
  "(case description u of
      None \<Rightarrow> None
    | Some d \<Rightarrow> if d \<noteq> [] then (case find_locations_in_text env d of [] \<Rightarrow> None | m # ms \<Rightarrow> Some m)
               else None)
   = (case description u of None \<Rightarrow> None | Some d \<Rightarrow> extract_location_from_text env d)"
  by (simp add: extract_location_from_text_def split: option.splits)

lemma strip_nonempty: "strip l \<noteq> [] \<Longrightarrow> l \<noteq> []"
  by (auto simp: strip_def)

lemma strip_blank_not_ignored: "strip l = [] \<Longrightarrow> lower (strip l) \<notin> set IGNORE_LOCATIONS"
  by (simp add: IGNORE_LOCATIONS_def lower_def)

text \<open>
  The order of the signals in \<^verbatim>\<open>extract_location_from_tweet\<close>, case by case.
  \<^item> A tweet with coordinates \<open>lat\<close>, \<open>lon\<close> yields the text of \<open>lat\<close>, a comma and the
    text of \<open>lon\<close>, whatever its place, its user and its text are; neither the ignore
    list nor the gazetteer is consulted.
  \<^item> Without coordinates, a non-empty full name of the place is returned.
  \<^item> Without either, a profile location that is not empty after trimming and is not on
    the ignore list is returned, trimmed.
  \<^item> When the profile location is missing, empty or ignored, the first location mined
    from the profile description is returned.
  \<^item> When the profile location is not empty but consists of white space only, the profile
    yields the empty string, its description is not read, and the result is the location
    mined from the text of the tweet.
  \<^item> When the profile yields nothing, the result is the location mined from the text of
    the tweet, or \<open>None\<close>.
\<close>

lemma extract_location_order:
  "(geo_coordinates t = Some (lat # lon # others) \<longrightarrow>
      extract_location_from_tweet env t = Inr (Some (str_of env lat @ '','' @ str_of env lon))) \<and>
   (geo_coordinates t \<in> {None, Some []} \<and> truthy (place_full_name t) \<longrightarrow>
      extract_location_from_tweet env t = Inr (place_full_name t)) \<and>
   (geo_coordinates t \<in> {None, Some []} \<and> \<not> truthy (place_full_name t) \<and>
    user t = Some u \<and> location u = Some l \<and> strip l \<noteq> [] \<and>
    lower (strip l) \<notin> set IGNORE_LOCATIONS \<longrightarrow>
      extract_location_from_tweet env t = Inr (Some (strip l))) \<and>
   (geo_coordinates t \<in> {None, Some []} \<and> \<not> truthy (place_full_name t) \<and>
    user t = Some u \<and>
    (location u = None \<or> location u = Some [] \<or>
     (\<exists>l'. location u = Some l' \<and> lower (strip l') \<in> set IGNORE_LOCATIONS)) \<and>
    description u = Some d \<and> truthy (extract_location_from_text env d) \<longrightarrow>
      extract_location_from_tweet env t = Inr (extract_location_from_text env d)) \<and>
   (geo_coordinates t \<in> {None, Some []} \<and> \<not> truthy (place_full_name t) \<and>
    user t = Some u \<and> location u = Some l \<and> l \<noteq> [] \<and> strip l = [] \<longrightarrow>
      extract_location_from_user_profile env (user t) = Some [] \<and>
      extract_location_from_tweet env t = Inr (extract_location_from_text env (tweet_text t))) \<and>
   (geo_coordinates t \<in> {None, Some []} \<and> \<not> truthy (place_full_name t) \<and>
    \<not> truthy (extract_location_from_user_profile env (user t)) \<longrightarrow>
      extract_location_from_tweet env t = Inr (extract_location_from_text env (tweet_text t)))"
proof (intro conjI impI)
  assume "geo_coordinates t = Some (lat # lon # others)"
  then show "extract_location_from_tweet env t = Inr (Some (str_of env lat @ '','' @ str_of env lon))"
    by (simp add: extract_location_from_tweet_def)
next
  assume "geo_coordinates t \<in> {None, Some []} \<and> truthy (place_full_name t)"
  then show "extract_location_from_tweet env t = Inr (place_full_name t)"
    by (auto simp: extract_location_from_tweet_def)
next
  assume a: "geo_coordinates t \<in> {None, Some []} \<and> \<not> truthy (place_full_name t) \<and>
    user t = Some u \<and> location u = Some l \<and> strip l \<noteq> [] \<and>
    lower (strip l) \<notin> set IGNORE_LOCATIONS"
  then have "l \<noteq> []" by (auto dest: strip_nonempty)
  with a have "extract_location_from_user_profile env (user t) = Some (strip l)"
    by (simp add: extract_location_from_user_profile_def)
  with a show "extract_location_from_tweet env t = Inr (Some (strip l))"
    by (auto simp: extract_location_from_tweet_def)
next
  assume a: "geo_coordinates t \<in> {None, Some []} \<and> \<not> truthy (place_full_name t) \<and>
    user t = Some u \<and>
    (location u = None \<or> location u = Some [] \<or>
     (\<exists>l'. location u = Some l' \<and> lower (strip l') \<in> set IGNORE_LOCATIONS)) \<and>
    description u = Some d \<and> truthy (extract_location_from_text env d)"
  then have "extract_location_from_user_profile env (user t) = extract_location_from_text env d"
    by (auto simp: extract_location_from_user_profile_def extract_location_from_text_def
             split: list.splits)
  with a show "extract_location_from_tweet env t = Inr (extract_location_from_text env d)"
    by (auto simp: extract_location_from_tweet_def)
next
  assume a: "geo_coordinates t \<in> {None, Some []} \<and> \<not> truthy (place_full_name t) \<and>
    user t = Some u \<and> location u = Some l \<and> l \<noteq> [] \<and> strip l = []"
  with strip_blank_not_ignored[of l]
  show b: "extract_location_from_user_profile env (user t) = Some []"
    by (simp add: extract_location_from_user_profile_def)
  with a show "extract_location_from_tweet env t = Inr (extract_location_from_text env (tweet_text t))"
    by (auto simp: extract_location_from_tweet_def)
next
  assume "geo_coordinates t \<in> {None, Some []} \<and> \<not> truthy (place_full_name t) \<and>
    \<not> truthy (extract_location_from_user_profile env (user t))"
  then show "extract_location_from_tweet env t = Inr (extract_location_from_text env (tweet_text t))"
    by (auto simp: extract_location_from_tweet_def)
qed

text \<open>
  The scenario of the specification: with coordinates the tweet yields the coordinates,
  without them the profile location \<^verbatim>\<open>Manchester, UK\<close>, and without a profile the city
  mentioned in its text.
\<close>

lemma extract_location_order_example:
  "extract_location_from_tweet env_found
     (london_tweet\<lparr>geo_coordinates := Some [51.5074, - 0.1278], user := Some manchester_user\<rparr>)
     = Inr (Some ''51.5074,-0.1278'') \<and>
   extract_location_from_tweet env_found (london_tweet\<lparr>user := Some manchester_user\<rparr>)
     = Inr (Some ''Manchester, UK'') \<and>
   extract_location_from_tweet env_found london_tweet = Inr (Some ''London'')"
proof -
  let ?geo = "london_tweet\<lparr>geo_coordinates := Some [51.5074, - 0.1278], user := Some manchester_user\<rparr>"
  let ?usr = "london_tweet\<lparr>user := Some manchester_user\<rparr>"
  have g: "geo_coordinates ?geo = Some (51.5074 # (- 0.1278) # [])"
    by (simp add: london_tweet_def)
  have fmt: "str_of env_found 51.5074 @ '','' @ str_of env_found (- 0.1278) = ''51.5074,-0.1278''"
    by (simp add: env_found_def example_str_def)
  have u: "geo_coordinates ?usr \<in> {None, Some []} \<and> \<not> truthy (place_full_name ?usr) \<and>
    user ?usr = Some manchester_user \<and> location manchester_user = Some ''Manchester, UK''"
    by (simp add: london_tweet_def manchester_user_def)
  have s: "strip ''Manchester, UK'' = ''Manchester, UK''"
    by code_simp
  have i: "lower ''Manchester, UK'' \<notin> set IGNORE_LOCATIONS"
    by code_simp
  have n: "geo_coordinates london_tweet \<in> {None, Some []} \<and> \<not> truthy (place_full_name london_tweet) \<and>
    \<not> truthy (extract_location_from_user_profile env_found (user london_tweet))"
    by (simp add: london_tweet_def extract_location_from_user_profile_def)
  have m: "extract_location_from_text env_found (tweet_text london_tweet) = Some ''London''"
    by code_simp
  note inst1 = extract_location_order[where t = ?geo and env = env_found and lat = "51.5074"
      and lon = "- 0.1278" and others = "[]"]
  note inst2 = extract_location_order[where t = ?usr and env = env_found and u = manchester_user
      and l = "''Manchester, UK''"]
  note inst3 = extract_location_order[where t = london_tweet and env = env_found]
  from inst1 g fmt have "extract_location_from_tweet env_found ?geo = Inr (Some ''51.5074,-0.1278'')"
    by simp
  moreover from inst2 u s i
  have "extract_location_from_tweet env_found ?usr = Inr (Some ''Manchester, UK'')"
    by simp
  moreover from inst3 n
  have "extract_location_from_tweet env_found london_tweet
          = Inr (extract_location_from_text env_found (tweet_text london_tweet))"
    by blast
  with m have "extract_location_from_tweet env_found london_tweet = Inr (Some ''London'')"
    by simp
  ultimately show ?thesis by simp
qed

text \<open>
  Claim C1. The signals are to be tried in strict priority order, the first non-empty
  result being returned: coordinates, full name of the place, profile location, locations
  mined from the profile description, locations mined from the text of the tweet. The
  code leaves that order on a profile location that consists of white space only. The
  test \<^verbatim>\<open>if location and ...\<close> of \<^verbatim>\<open>extract_location_from_user_profile\<close> looks at the
  untrimmed string, so the function returns the trimmed string, which is empty, before
  it reads the description. For the caller the empty string is no result, and it goes
  on to the text of the tweet. On the tweet below, whose profile has the location
  \<^verbatim>\<open>' '\<close> and the description \<^verbatim>\<open>Fan based in Berlin\<close>, the profile yields the empty
  string although its description yields \<^verbatim>\<open>Berlin\<close>, and the tweet yields \<^verbatim>\<open>London\<close>,
  mined from its text; the same tweet with no profile location yields \<^verbatim>\<open>Berlin\<close>.
\<close>

theorem blank_profile_location_skips_description:
  "extract_location_from_user_profile env_found (Some blank_user) = Some [] \<and>
   extract_location_from_text env_found ''Fan based in Berlin'' = Some ''Berlin'' \<and>
   extract_location_from_tweet env_found (london_tweet\<lparr>user := Some blank_user\<rparr>)
     = Inr (Some ''London'') \<and>
   extract_location_from_tweet env_found
     (london_tweet\<lparr>user := Some (blank_user\<lparr>location := None\<rparr>)\<rparr>) = Inr (Some ''Berlin'')"
  by code_simp

text \<open>
  Claim C8. When the location field of the profile is an ignored term, compared after
  trimming and lower-casing, the profile yields what its description yields and never
  the location field. A tweet without coordinates and place then yields the location
  mined from the description if there is one and else the one mined from its text; it
  yields \<open>None\<close> exactly when both are empty.
\<close>

theorem ignored_profile_location_falls_through:
  assumes "user t = Some u" and "location u = Some l"
    and "lower (strip l) \<in> set IGNORE_LOCATIONS"
  shows "extract_location_from_user_profile env (user t)
           = (case description u of None \<Rightarrow> None | Some d \<Rightarrow> extract_location_from_text env d) \<and>
         (geo_coordinates t \<in> {None, Some []} \<and> \<not> truthy (place_full_name t) \<longrightarrow>
            extract_location_from_tweet env t
              = Inr (if truthy (extract_location_from_user_profile env (user t))
                     then extract_location_from_user_profile env (user t)
                     else extract_location_from_text env (tweet_text t)) \<and>
            ((extract_location_from_tweet env t = Inr None)
               = (\<not> truthy (extract_location_from_user_profile env (user t)) \<and>
                  extract_location_from_text env (tweet_text t) = None)))"
proof -
  have p: "extract_location_from_user_profile env (user t)
           = (case description u of None \<Rightarrow> None | Some d \<Rightarrow> extract_location_from_text env d)"
    using assms
    by (simp add: extract_location_from_user_profile_def profile_description)
  have q: "extract_location_from_tweet env t
              = Inr (if truthy (extract_location_from_user_profile env (user t))
                     then extract_location_from_user_profile env (user t)
                     else extract_location_from_text env (tweet_text t))"
    if "geo_coordinates t \<in> {None, Some []} \<and> \<not> truthy (place_full_name t)"
    using that by (auto simp: extract_location_from_tweet_def)
  have r: "(extract_location_from_tweet env t = Inr None)
               = (\<not> truthy (extract_location_from_user_profile env (user t)) \<and>
                  extract_location_from_text env (tweet_text t) = None)"
    if "geo_coordinates t \<in> {None, Some []} \<and> \<not> truthy (place_full_name t)"
    using q[OF that] by (cases "extract_location_from_user_profile env (user t)") auto
  from p q r show ?thesis by blast
qed

theorem ignored_profile_location_falls_through_witness:
  "extract_location_from_user_profile env_found (Some twitter_user) = Some ''Berlin'' \<and>
   extract_location_from_tweet env_found (london_tweet\<lparr>user := Some twitter_user\<rparr>)
     = Inr (Some ''Berlin'') \<and>
   extract_location_from_tweet env_found
     (london_tweet\<lparr>tweet_text := ''What a game'', user := Some (twitter_user\<lparr>description := None\<rparr>)\<rparr>)
     = Inr None"
proof -
  let ?a = "london_tweet\<lparr>user := Some twitter_user\<rparr>"
  let ?v = "twitter_user\<lparr>description := None\<rparr>"
  let ?b = "london_tweet\<lparr>tweet_text := ''What a game'', user := Some ?v\<rparr>"
  have ign: "lower (strip ''Twitter'') \<in> set IGNORE_LOCATIONS"
    by code_simp
  have bio: "extract_location_from_text env_found ''Fan based in Berlin'' = Some ''Berlin''"
    by code_simp
  have body: "extract_location_from_text env_found ''What a game'' = None"
    by code_simp
  have ua: "user ?a = Some twitter_user" "location twitter_user = Some ''Twitter''"
    "description twitter_user = Some ''Fan based in Berlin''"
    "geo_coordinates ?a \<in> {None, Some []} \<and> \<not> truthy (place_full_name ?a)"
    by (simp_all add: london_tweet_def twitter_user_def)
  have ub: "user ?b = Some ?v" "location ?v = Some ''Twitter''" "description ?v = None"
    "geo_coordinates ?b \<in> {None, Some []} \<and> \<not> truthy (place_full_name ?b)"
    "tweet_text ?b = ''What a game''"
    by (simp_all add: london_tweet_def twitter_user_def)
  note ia = ignored_profile_location_falls_through[OF ua(1) ua(2) ign, of env_found]
  note ib = ignored_profile_location_falls_through[OF ub(1) ub(2) ign, of env_found]
  from ia ua bio have pa: "extract_location_from_user_profile env_found (Some twitter_user) = Some ''Berlin''"
    by simp
  with ia ua have "extract_location_from_tweet env_found ?a = Inr (Some ''Berlin'')"
    by simp
  moreover from ib ub body have "extract_location_from_tweet env_found ?b = Inr None"
    by simp
  ultimately show ?thesis using pa by simp
qed

end
